theory Spec2Isabelle
  imports Complex_Main
begin

section \<open>JavaScript values used by the analyzers\<close>

text \<open>
  A JavaScript \<^verbatim>\<open>number\<close> is modelled by \<open>jsnum\<close>: a finite value, the two
  infinities, or NaN. Finite arithmetic is exact (a real number): rounding of doubles,
  overflow to Infinity and the sign of zero are not modelled (a zero divisor is taken
  as \<open>+0\<close>). What is modelled is every place where the analyzers can produce NaN or an
  infinity: division by zero, \<^verbatim>\<open>Math.min()\<close> and \<^verbatim>\<open>Math.max()\<close> of no argument,
  and the propagation of NaN through arithmetic and comparisons.
\<close>

datatype jsnum = Fin real | PInf | NInf | NaN

definition num :: "nat \<Rightarrow> jsnum" where
  "num n = Fin (real n)"

definition numi :: "int \<Rightarrow> jsnum" where
  "numi i = Fin (real_of_int i)"

fun js_neg :: "jsnum \<Rightarrow> jsnum" where
  "js_neg (Fin a) = Fin (- a)"
| "js_neg PInf = NInf"
| "js_neg NInf = PInf"
| "js_neg NaN = NaN"

fun js_add :: "jsnum \<Rightarrow> jsnum \<Rightarrow> jsnum" where
  "js_add NaN y = NaN"
| "js_add x NaN = NaN"
| "js_add (Fin a) (Fin b) = Fin (a + b)"
| "js_add PInf NInf = NaN"
| "js_add NInf PInf = NaN"
| "js_add PInf y = PInf"
| "js_add NInf y = NInf"
| "js_add (Fin a) y = y"

definition js_sub :: "jsnum \<Rightarrow> jsnum \<Rightarrow> jsnum" where
  "js_sub x y = js_add x (js_neg y)"

fun js_sign :: "jsnum \<Rightarrow> int" where
  "js_sign (Fin a) = (if a < 0 then -1 else if a = 0 then 0 else 1)"
| "js_sign PInf = 1"
| "js_sign NInf = -1"
| "js_sign NaN = 0"

fun js_mul :: "jsnum \<Rightarrow> jsnum \<Rightarrow> jsnum" where
  "js_mul NaN y = NaN"
| "js_mul x NaN = NaN"
| "js_mul (Fin a) (Fin b) = Fin (a * b)"
| "js_mul x y =
     (if js_sign x = 0 \<or> js_sign y = 0 then NaN
      else if js_sign x = js_sign y then PInf else NInf)"

fun js_div :: "jsnum \<Rightarrow> jsnum \<Rightarrow> jsnum" where
  "js_div NaN y = NaN"
| "js_div x NaN = NaN"
| "js_div (Fin a) (Fin b) =
     (if b \<noteq> 0 then Fin (a / b)
      else if a = 0 then NaN else if 0 < a then PInf else NInf)"
| "js_div (Fin a) y = Fin 0"
| "js_div x (Fin b) = (if (0 \<le> b) = (x = PInf) then PInf else NInf)"
| "js_div x y = NaN"

fun js_lt :: "jsnum \<Rightarrow> jsnum \<Rightarrow> bool" where
  "js_lt NaN y = False"
| "js_lt x NaN = False"
| "js_lt (Fin a) (Fin b) = (a < b)"
| "js_lt x NInf = False"
| "js_lt NInf y = True"
| "js_lt PInf y = False"
| "js_lt (Fin a) PInf = True"

definition js_le :: "jsnum \<Rightarrow> jsnum \<Rightarrow> bool" where
  "js_le x y = (js_lt x y \<or> (x = y \<and> x \<noteq> NaN))"

definition js_gt :: "jsnum \<Rightarrow> jsnum \<Rightarrow> bool" where
  "js_gt x y = js_lt y x"

definition js_ge :: "jsnum \<Rightarrow> jsnum \<Rightarrow> bool" where
  "js_ge x y = js_le y x"

text \<open>\<^verbatim>\<open>Math.min\<close> and \<^verbatim>\<open>Math.max\<close>: NaN if any argument is NaN; with no
  argument, \<open>+Infinity\<close> and \<open>-Infinity\<close>.\<close>

definition js_min2 :: "jsnum \<Rightarrow> jsnum \<Rightarrow> jsnum" where
  "js_min2 x y = (if x = NaN \<or> y = NaN then NaN else if js_lt y x then y else x)"

definition js_max2 :: "jsnum \<Rightarrow> jsnum \<Rightarrow> jsnum" where
  "js_max2 x y = (if x = NaN \<or> y = NaN then NaN else if js_lt x y then y else x)"

definition js_min_list :: "jsnum list \<Rightarrow> jsnum" where
  "js_min_list xs = foldl js_min2 PInf xs"

definition js_max_list :: "jsnum list \<Rightarrow> jsnum" where
  "js_max_list xs = foldl js_max2 NInf xs"

fun js_abs :: "jsnum \<Rightarrow> jsnum" where
  "js_abs (Fin a) = Fin \<bar>a\<bar>"
| "js_abs PInf = PInf"
| "js_abs NInf = PInf"
| "js_abs NaN = NaN"

fun js_sqrt :: "jsnum \<Rightarrow> jsnum" where
  "js_sqrt (Fin a) = (if a < 0 then NaN else Fin (sqrt a))"
| "js_sqrt PInf = PInf"
| "js_sqrt NInf = NaN"
| "js_sqrt NaN = NaN"

text \<open>\<^verbatim>\<open>Math.pow(x, 2)\<close>.\<close>

definition js_sq :: "jsnum \<Rightarrow> jsnum" where
  "js_sq x = js_mul x x"

text \<open>\<^verbatim>\<open>values.reduce((a, b) => a + b, 0)\<close>.\<close>

definition js_sum :: "jsnum list \<Rightarrow> jsnum" where
  "js_sum xs = foldl js_add (Fin 0) xs"

text \<open>
  A JavaScript \<^verbatim>\<open>Set\<close> of strings and a \<^verbatim>\<open>Map\<close> keep insertion order, and the
  analyzers iterate over them, so a set is a duplicate-free list in insertion order and
  a map is an association list in insertion order. \<open>set_add\<close> is \<^verbatim>\<open>s.add(x)\<close>,
  \<open>new_Set\<close> is \<^verbatim>\<open>new Set(xs)\<close>, \<open>map_set\<close> is \<^verbatim>\<open>m.set(k, v)\<close>: a key
  already present keeps its position.
\<close>

definition set_add :: "'a list \<Rightarrow> 'a \<Rightarrow> 'a list" where
  "set_add s x = (if x \<in> set s then s else s @ [x])"

definition new_Set :: "'a list \<Rightarrow> 'a list" where
  "new_Set xs = foldl set_add [] xs"

fun map_set :: "('k \<times> 'v) list \<Rightarrow> 'k \<Rightarrow> 'v \<Rightarrow> ('k \<times> 'v) list" where
  "map_set [] k v = [(k, v)]"
| "map_set ((k', v') # m) k v =
     (if k' = k then (k, v) # m else (k', v') # map_set m k v)"

text \<open>
  \<^verbatim>\<open>xs.sort(cmp)\<close> is stable. \<open>sort_by\<close> is the stable insertion sort for the
  comparator \<open>cmp\<close>, where \<open>cmp a b\<close> holds when the source's comparator returns a
  positive number for \<open>(a, b)\<close>: then \<open>b\<close> goes before \<open>a\<close>.
\<close>

fun insert_by :: "('a \<Rightarrow> 'a \<Rightarrow> bool) \<Rightarrow> 'a \<Rightarrow> 'a list \<Rightarrow> 'a list" where
  "insert_by cmp x [] = [x]"
| "insert_by cmp x (y # ys) =
     (if cmp x y then y # insert_by cmp x ys else x # y # ys)"

fun sort_by :: "('a \<Rightarrow> 'a \<Rightarrow> bool) \<Rightarrow> 'a list \<Rightarrow> 'a list" where
  "sort_by cmp [] = []"
| "sort_by cmp (x # xs) = insert_by cmp x (sort_by cmp xs)"

text \<open>The decimal rendering of a number in a template literal.\<close>

definition digit_char :: "nat \<Rightarrow> char" where
  "digit_char d = ''0123456789'' ! d"

fun dec_nat :: "nat \<Rightarrow> string" where
  "dec_nat n = (if n < 10 then [digit_char n] else dec_nat (n div 10) @ [digit_char (n mod 10)])"

definition dec_int :: "int \<Rightarrow> string" where
  "dec_int i = (if i < 0 then CHR ''-'' # dec_nat (nat (- i)) else dec_nat (nat i))"


fun js_join :: "string list \<Rightarrow> string" where
  "js_join [] = []"
| "js_join [x] = x"
| "js_join (x # y # ys) = x @ '','' @ js_join (y # ys)"

text \<open>
  The wall clock and the random generator are inputs: \<open>clock w k\<close> is the value of the
  \<open>k\<close>-th read of \<^verbatim>\<open>Date.now()\<close> or \<^verbatim>\<open>new Date()\<close> in a run (milliseconds), and
  \<open>random36 w k\<close> is \<^verbatim>\<open>Math.random().toString(36).substr(2, 9)\<close> when the \<open>k\<close>-th
  read is a random draw. A function that reads them takes the index of its first read
  and returns the index after its last one. The time zone of the process is an input as
  well: \<open>getHours w t\<close> and \<open>getDay w t\<close> are the local hour (0 to 23) and the local day
  of the week (0 to 6) of the time value \<open>t\<close>.
\<close>

record world =
  clock :: "nat \<Rightarrow> int"
  random36 :: "nat \<Rightarrow> string"
  getHours :: "int \<Rightarrow> nat"
  getDay :: "int \<Rightarrow> nat"

text \<open>
  The stores are outside the analyzers. Where the source awaits a store call without
  catching its failure, the failure is a result of the model: \<open>neo4j_ok\<close> and \<open>pg_ok\<close>
  say whether the calls to the graph store and to the relational store succeed.
\<close>

record stores =
  neo4j_ok :: bool
  pg_ok :: bool

datatype error = StoreError | RangeError | TypeError

section \<open>Shared data and loops\<close>

text \<open>The kinds of interaction, and the kinds of timeline event.\<close>

datatype spread_type = retweet | quote | reply

datatype timeline_type = original | spread spread_type

fun spread_type_str :: "spread_type \<Rightarrow> string" where
  "spread_type_str retweet = ''retweet''"
| "spread_type_str quote = ''quote''"
| "spread_type_str reply = ''reply''"

fun timeline_type_str :: "timeline_type \<Rightarrow> string" where
  "timeline_type_str original = ''original''"
| "timeline_type_str (spread t) = spread_type_str t"

text \<open>The differences of consecutive elements:
  \<^verbatim>\<open>for (i = 1; i < xs.length; i++) intervals.push(xs[i] - xs[i-1])\<close>.\<close>

fun differences :: "int list \<Rightarrow> int list" where
  "differences (a # b # xs) = (b - a) # differences (b # xs)"
| "differences xs = []"

text \<open>Grouping into a \<^verbatim>\<open>Map\<close> of arrays: \<open>group_push m k e\<close> is
  \<^verbatim>\<open>const g = m.get(k) || []; g.push(e); m.set(k, g)\<close>.\<close>

definition group_push :: "('k \<times> 'a list) list \<Rightarrow> 'k \<Rightarrow> 'a \<Rightarrow> ('k \<times> 'a list) list" where
  "group_push m k e = map_set m k ((case map_of m k of None \<Rightarrow> [] | Some g \<Rightarrow> g) @ [e])"

definition group_by :: "('a \<Rightarrow> 'k) \<Rightarrow> 'a list \<Rightarrow> ('k \<times> 'a list) list" where
  "group_by key xs = foldl (\<lambda>m e. group_push m (key e) e) [] xs"

text \<open>
  \<^verbatim>\<open>expandCluster\<close>, the breadth-first traversal that the coordination detector
  and the network analyzer both have, word for word. The adjacency is a \<^verbatim>\<open>Map\<close> from
  an account to the \<^verbatim>\<open>Set\<close> of its neighbours; an account with no entry has no
  neighbour. The set \<open>visited\<close> is shared with the caller, so the loop returns it with
  the cluster. The loop ends because every round either drops an element of the queue or
  visits an account that was not visited.
\<close>

definition neighbours_of :: "(string \<times> string list) list \<Rightarrow> string \<Rightarrow> string list" where
  "neighbours_of adj n = (case map_of adj n of None \<Rightarrow> [] | Some ns \<Rightarrow> ns)"

lemma neighbours_of_subset: "set (neighbours_of adj n) \<subseteq> set (concat (map snd adj))"
proof
  fix x assume "x \<in> set (neighbours_of adj n)"
  then obtain ns where ns: "map_of adj n = Some ns" "x \<in> set ns"
    by (cases "map_of adj n") (auto simp: neighbours_of_def)
  then have "(n, ns) \<in> set adj" by (simp add: map_of_SomeD)
  then show "x \<in> set (concat (map snd adj))" using ns(2) by force
qed

text \<open>The measure that decreases in every round of the loop below: the accounts not
  visited yet, then the length of the queue.\<close>

definition bfs_measure ::
  "(string \<times> string list) list \<times> string list \<times> string list \<times> string list \<Rightarrow> nat \<times> nat" where
  "bfs_measure = (\<lambda>(adj, queue, visited, cluster).
     (card ((set (concat (map snd adj)) \<union> set queue) - set visited), length queue))"

function expandCluster_loop ::
  "(string \<times> string list) list \<Rightarrow> string list \<Rightarrow> string list \<Rightarrow> string list
   \<Rightarrow> string list \<times> string list" where
  "expandCluster_loop adj [] visited cluster = (cluster, visited)"
| "expandCluster_loop adj (current # queue) visited cluster =
     (if current \<in> set visited then expandCluster_loop adj queue visited cluster
      else expandCluster_loop adj
             (queue @ filter (\<lambda>n. n \<notin> set (visited @ [current])) (neighbours_of adj current))
             (visited @ [current]) (cluster @ [current]))"
  by pat_completeness auto

termination
proof (relation "inv_image (less_than <*lex*> less_than) bfs_measure")
  show "wf (inv_image (less_than <*lex*> less_than) bfs_measure)"
    by (intro wf_inv_image wf_lex_prod wf_less_than)
next
  fix current :: string and visited :: "string list" and adj :: "(string \<times> string list) list"
    and queue :: "string list" and cluster :: "string list"
  assume "current \<in> set visited"
  have "(set (concat (map snd adj)) \<union> set queue) - set visited
        \<subseteq> (set (concat (map snd adj)) \<union> set (current # queue)) - set visited"
    by auto
  then have "card ((set (concat (map snd adj)) \<union> set queue) - set visited)
        \<le> card ((set (concat (map snd adj)) \<union> set (current # queue)) - set visited)"
    by (intro card_mono) auto
  then show "((adj, queue, visited, cluster), (adj, current # queue, visited, cluster))
        \<in> inv_image (less_than <*lex*> less_than) bfs_measure"
    by (auto simp: bfs_measure_def)
next
  fix current :: string and visited :: "string list" and adj :: "(string \<times> string list) list"
    and queue :: "string list" and cluster :: "string list"
  assume nv: "current \<notin> set visited"
  let ?U = "set (concat (map snd adj))"
  let ?q = "queue @ filter (\<lambda>n. n \<notin> set (visited @ [current])) (neighbours_of adj current)"
  have sub: "(?U \<union> set ?q) - set (visited @ [current])
             \<subset> (?U \<union> set (current # queue)) - set visited"
    using nv neighbours_of_subset [of adj current] by auto
  have "card ((?U \<union> set ?q) - set (visited @ [current]))
        < card ((?U \<union> set (current # queue)) - set visited)"
    by (rule psubset_card_mono [OF _ sub]) auto
  then show "((adj, ?q, visited @ [current], cluster @ [current]),
              (adj, current # queue, visited, cluster))
        \<in> inv_image (less_than <*lex*> less_than) bfs_measure"
    by (simp add: bfs_measure_def)
qed


definition expandCluster ::
  "string \<Rightarrow> (string \<times> string list) list \<Rightarrow> string list \<Rightarrow> string list \<times> string list" where
  "expandCluster start adj visited = expandCluster_loop adj [start] visited []"

section \<open>BotDetector\<close>





record account =
  acc_id :: string
  username :: string
  displayName :: string
  createdAt :: int
  followersCount :: nat
  followingCount :: nat
  tweetCount :: nat
  verified :: bool
  description :: "string option"
  location :: "string option"
  profileImageUrl :: "string option"



datatype classification = human | uncertain | cyborg | bot

















definition classify :: "jsnum \<Rightarrow> classification" where
  "classify probability =
     (if js_ge probability (Fin (8 / 10)) then bot
      else if js_ge probability (Fin (6 / 10)) then cyborg
      else if js_ge probability (Fin (4 / 10)) then uncertain
      else human)"




definition class_rank :: "classification \<Rightarrow> nat" where
  "class_rank c = (case c of human \<Rightarrow> 0 | uncertain \<Rightarrow> 1 | cyborg \<Rightarrow> 2 | bot \<Rightarrow> 3)"

section \<open>CoordinationDetector\<close>

text \<open>
  The optional \<^verbatim>\<open>metrics\<close> of a spread event are never read. \<open>None\<close> in a time
  window is an invalid \<^verbatim>\<open>Date\<close>.
\<close>

record spread_event =
  se_id :: string
  se_type :: spread_type
  sourceAccountId :: string
  targetTweetId :: string
  se_timestamp :: int
  se_cascadeDepth :: nat
  se_content :: "string option"

record coordination_evidence =
  ev_type :: string
  ev_description :: string
  ev_accounts :: "string list"
  ev_timestamp :: int
  strength :: jsnum

datatype pattern_type = Temporal | Content | Network | Mixed

record time_window =
  tw_start :: "int option"
  tw_end :: "int option"

record coordination_pattern =
  accounts :: "string list"
  cp_type :: pattern_type
  cp_confidence :: jsnum
  evidence :: "coordination_evidence list"
  timeWindow :: time_window

record network_cluster =
  nc_accounts :: "string list"
  nc_density :: jsnum

definition timeWindowThreshold :: int where
  "timeWindowThreshold = 3 * 60 * 1000"

definition contentSimilarityThreshold :: jsnum where
  "contentSimilarityThreshold = Fin (8 / 10)"

definition minGroupSize :: nat where
  "minGroupSize = 3"

definition by_event_time :: "spread_event \<Rightarrow> spread_event \<Rightarrow> bool" where
  "by_event_time a b = (se_timestamp a - se_timestamp b > 0)"

text \<open>One step of \<^verbatim>\<open>groupByTimeWindow\<close>: the activity joins the first group, in
  insertion order, whose key is within the threshold of its time, or else opens a group
  under its own time.\<close>

fun place_in_groups ::
  "(int \<times> spread_event list) list \<Rightarrow> int \<Rightarrow> spread_event \<Rightarrow> (int \<times> spread_event list) list" where
  "place_in_groups [] time activity = [(time, [activity])]"
| "place_in_groups ((groupTime, grp) # groups) time activity =
     (if \<bar>time - groupTime\<bar> \<le> timeWindowThreshold then (groupTime, grp @ [activity]) # groups
      else (groupTime, grp) # place_in_groups groups time activity)"

definition groupByTimeWindow :: "spread_event list \<Rightarrow> (int \<times> spread_event list) list" where
  "groupByTimeWindow activities =
     foldl (\<lambda>groups activity. place_in_groups groups (se_timestamp activity) activity)
           [] (sort_by by_event_time activities)"

text \<open>\<^verbatim>\<open>Math.min(...timestamps)\<close> of no timestamp is \<open>Infinity\<close>, and
  \<^verbatim>\<open>new Date(Infinity)\<close> is an invalid date.\<close>

definition calculateTimeWindow :: "spread_event list \<Rightarrow> time_window" where
  "calculateTimeWindow activities =
     (case map se_timestamp activities of
        [] \<Rightarrow> \<lparr> tw_start = None, tw_end = None \<rparr>
      | t # ts \<Rightarrow> \<lparr> tw_start = Some (foldl min t ts), tw_end = Some (foldl max t ts) \<rparr>)"

definition generateTemporalEvidence :: "spread_event list \<Rightarrow> coordination_evidence list" where
  "generateTemporalEvidence activities =
     concat (map (\<lambda>(timestamp, grp).
       if length grp \<ge> 2 then
         [\<lparr> ev_type = ''temporal_synchronization'',
            ev_description = dec_nat (length grp) @ '' accounts acted within ''
                               @ dec_int (timeWindowThreshold div 1000) @ '' seconds'',
            ev_accounts = new_Set (map sourceAccountId grp),
            ev_timestamp = timestamp,
            strength = js_min2 (Fin 1) (js_div (num (length grp)) (Fin 10)) \<rparr>]
       else []) (groupByTimeWindow activities))"

definition calculateTimeSpread :: "spread_event list \<Rightarrow> jsnum" where
  "calculateTimeSpread activities =
     (let timestamps = map (\<lambda>a. numi (se_timestamp a)) activities;
          spread = js_sub (js_max_list timestamps) (js_min_list timestamps)
      in js_min2 (Fin 1) (js_div spread (Fin (60 * 60 * 1000))))"

definition calculateAccountDiversity :: "spread_event list \<Rightarrow> jsnum" where
  "calculateAccountDiversity activities =
     js_div (num (length (new_Set (map sourceAccountId activities)))) (num (length activities))"

text \<open>The \<^verbatim>\<open>calculateBurstiness\<close> of the coordination detector: the coefficient of
  variation of the intervals, with no check of the mean.\<close>

definition coord_calculateBurstiness :: "spread_event list \<Rightarrow> jsnum" where
  "coord_calculateBurstiness activities =
     (let timestamps = sort_by (\<lambda>a b. a - b > 0) (map se_timestamp activities) in
      if length timestamps < 2 then Fin 0
      else
        let intervals = map numi (differences timestamps);
            mean = js_div (js_sum intervals) (num (length intervals));
            variance = js_div (foldl (\<lambda>sum interval. js_add sum (js_sq (js_sub interval mean)))
                                     (Fin 0) intervals)
                              (num (length intervals));
            cv = js_div (js_sqrt variance) mean
        in js_min2 (Fin 1) cv)"

definition calculateTemporalConfidence :: "spread_event list \<Rightarrow> jsnum" where
  "calculateTemporalConfidence activities =
     (let timeSpread = calculateTimeSpread activities;
          accountDiversity = calculateAccountDiversity activities;
          burstiness = coord_calculateBurstiness activities
      in js_add (js_add (js_mul (js_sub (Fin 1) timeSpread) (Fin (4 / 10)))
                        (js_mul (js_sub (Fin 1) accountDiversity) (Fin (3 / 10))))
                (js_mul burstiness (Fin (3 / 10))))"

definition createTemporalPattern :: "spread_event list \<Rightarrow> string list \<Rightarrow> coordination_pattern" where
  "createTemporalPattern activities accs =
     \<lparr> accounts = accs,
       cp_type = Temporal,
       cp_confidence = calculateTemporalConfidence activities,
       evidence = generateTemporalEvidence activities,
       timeWindow = calculateTimeWindow activities \<rparr>"

definition detectTemporalCoordination :: "spread_event list \<Rightarrow> coordination_pattern list" where
  "detectTemporalCoordination activities =
     concat (map (\<lambda>(timestamp, grp).
       if length grp \<ge> minGroupSize then
         let uniqueAccounts = new_Set (map sourceAccountId grp) in
         if length uniqueAccounts \<ge> minGroupSize then [createTemporalPattern grp uniqueAccounts]
         else []
       else []) (groupByTimeWindow activities))"

text \<open>
  \<^verbatim>\<open>toLowerCase()\<close> and \<^verbatim>\<open>split(/\s+/)\<close> on ASCII text. A run of white space
  separates two words; white space at the start or at the end of the text gives an empty
  first or last word, and the empty text gives one empty word.
\<close>

definition to_lower :: "char \<Rightarrow> char" where
  "to_lower c =
     (case map_of (zip ''ABCDEFGHIJKLMNOPQRSTUVWXYZ'' ''abcdefghijklmnopqrstuvwxyz'') c of
        None \<Rightarrow> c | Some l \<Rightarrow> l)"

definition is_space :: "char \<Rightarrow> bool" where
  "is_space c = (c \<in> set [CHR '' '', CHR 0x09, CHR 0x0A, CHR 0x0B, CHR 0x0C, CHR 0x0D])"

fun split_ws :: "string \<Rightarrow> bool \<Rightarrow> string \<Rightarrow> string list" where
  "split_ws cur in_ws [] = [cur]"
| "split_ws cur in_ws (c # cs) =
     (if is_space c then (if in_ws then split_ws cur True cs else cur # split_ws [] True cs)
      else split_ws (cur @ [c]) False cs)"

definition words_of :: "string \<Rightarrow> string list" where
  "words_of text = new_Set (split_ws [] False (map to_lower text))"

text \<open>\<^verbatim>\<open>!a.content\<close> holds for a missing and for an empty content.\<close>

definition calculateContentSimilarity :: "spread_event \<Rightarrow> spread_event \<Rightarrow> jsnum" where
  "calculateContentSimilarity a b =
     (case (se_content a, se_content b) of
        (Some ca, Some cb) \<Rightarrow>
          if ca = [] \<or> cb = [] then Fin 0
          else
            let wordsA = words_of ca;
                wordsB = words_of cb;
                intersection = new_Set (filter (\<lambda>x. x \<in> set wordsB) wordsA);
                union = new_Set (wordsA @ wordsB)
            in if length union > 0 then js_div (num (length intersection)) (num (length union))
               else Fin 0
      | _ \<Rightarrow> Fin 0)"

text \<open>The inner loop of \<^verbatim>\<open>groupBySimilarContent\<close> over the activities after the
  first of the group: the group and the set of used ids.\<close>

fun similar_to :: "spread_event \<Rightarrow> spread_event list \<Rightarrow> spread_event list \<times> string list
    \<Rightarrow> spread_event list \<times> string list" where
  "similar_to a [] (grp, used) = (grp, used)"
| "similar_to a (b # bs) (grp, used) =
     (if se_id b \<in> set used then similar_to a bs (grp, used)
      else if js_ge (calculateContentSimilarity a b) contentSimilarityThreshold
        then similar_to a bs (grp @ [b], set_add used (se_id b))
      else similar_to a bs (grp, used))"

fun groupBySimilarContent_from :: "string list \<Rightarrow> spread_event list \<Rightarrow> spread_event list list" where
  "groupBySimilarContent_from used [] = []"
| "groupBySimilarContent_from used (a # rest) =
     (if se_id a \<in> set used then groupBySimilarContent_from used rest
      else
        let (grp, used') = similar_to a rest ([a], set_add used (se_id a))
        in (if length grp \<ge> minGroupSize then [grp] else [])
           @ groupBySimilarContent_from used' rest)"

definition groupBySimilarContent :: "spread_event list \<Rightarrow> spread_event list list" where
  "groupBySimilarContent activities = groupBySimilarContent_from [] activities"

definition generateContentEvidence :: "spread_event list \<Rightarrow> coordination_evidence list" where
  "generateContentEvidence activities =
     concat (map (\<lambda>grp.
       if length grp \<ge> 2 then
         [\<lparr> ev_type = ''content_similarity'',
            ev_description = dec_nat (length grp) @ '' accounts posted similar content'',
            ev_accounts = new_Set (map sourceAccountId grp),
            ev_timestamp = se_timestamp (hd grp),
            strength = js_min2 (Fin 1) (js_div (num (length grp)) (Fin 10)) \<rparr>]
       else []) (groupBySimilarContent activities))"

fun pair_similarities :: "spread_event list \<Rightarrow> jsnum list" where
  "pair_similarities [] = []"
| "pair_similarities (a # rest) =
     map (calculateContentSimilarity a) rest @ pair_similarities rest"

definition calculateAverageContentSimilarity :: "spread_event list \<Rightarrow> jsnum" where
  "calculateAverageContentSimilarity activities =
     (if length activities < 2 then Fin 0
      else
        let sims = pair_similarities activities;
            totalSimilarity = js_sum sims;
            comparisons = length sims
        in if comparisons > 0 then js_div totalSimilarity (num comparisons) else Fin 0)"

definition calculateContentConfidence :: "spread_event list \<Rightarrow> jsnum" where
  "calculateContentConfidence activities =
     (let avgSimilarity = calculateAverageContentSimilarity activities;
          accountDiversity = calculateAccountDiversity activities
      in js_add (js_mul avgSimilarity (Fin (7 / 10)))
                (js_mul (js_sub (Fin 1) accountDiversity) (Fin (3 / 10))))"

definition createContentPattern :: "spread_event list \<Rightarrow> string list \<Rightarrow> coordination_pattern" where
  "createContentPattern activities accs =
     \<lparr> accounts = accs,
       cp_type = Content,
       cp_confidence = calculateContentConfidence activities,
       evidence = generateContentEvidence activities,
       timeWindow = calculateTimeWindow activities \<rparr>"

definition detectContentCoordination :: "spread_event list \<Rightarrow> coordination_pattern list" where
  "detectContentCoordination activities =
     concat (map (\<lambda>grp.
       if length grp \<ge> minGroupSize then
         let uniqueAccounts = new_Set (map sourceAccountId grp) in
         if length uniqueAccounts \<ge> minGroupSize then [createContentPattern grp uniqueAccounts]
         else []
       else []) (groupBySimilarContent activities))"

text \<open>The adjacency of \<^verbatim>\<open>findNetworkClusters\<close>: an account is linked to the other
  accounts that acted on the same target.\<close>

definition coord_adjacency :: "spread_event list \<Rightarrow> (string \<times> string list) list" where
  "coord_adjacency activities =
     foldl (\<lambda>adjacencyMap activity.
              let m = (if map_of adjacencyMap (sourceAccountId activity) = None
                       then map_set adjacencyMap (sourceAccountId activity) []
                       else adjacencyMap);
                  related = filter (\<lambda>a. targetTweetId a = targetTweetId activity
                                      \<and> sourceAccountId a \<noteq> sourceAccountId activity) activities
              in foldl (\<lambda>m rel. map_set m (sourceAccountId activity)
                                   (set_add (neighbours_of m (sourceAccountId activity))
                                            (sourceAccountId rel)))
                       m related)
           [] activities"

definition calculateClusterDensity :: "string list \<Rightarrow> (string \<times> string list) list \<Rightarrow> jsnum" where
  "calculateClusterDensity cluster adjacencyMap =
     (let edges = sum_list (map (\<lambda>account.
                     length (filter (\<lambda>conn. conn \<in> set cluster) (neighbours_of adjacencyMap account)))
                   cluster);
          n = length cluster;
          possibleEdges = n * (n - 1)
      in if possibleEdges > 0 then js_div (num edges) (num possibleEdges) else Fin 0)"

definition findNetworkClusters :: "spread_event list \<Rightarrow> network_cluster list" where
  "findNetworkClusters activities =
     (let adjacencyMap = coord_adjacency activities in
      fst (foldl (\<lambda>(clusters, visited) (account, connections).
                    if account \<notin> set visited \<and> length connections \<ge> minGroupSize - 1 then
                      let (cluster, visited') = expandCluster account adjacencyMap visited
                      in ((if length cluster \<ge> minGroupSize
                           then clusters @ [\<lparr> nc_accounts = cluster,
                                               nc_density = calculateClusterDensity cluster adjacencyMap \<rparr>]
                           else clusters), visited')
                    else (clusters, visited))
                 ([], []) adjacencyMap))"

text \<open>\<^verbatim>\<open>activities[0]\<close> is read for a cluster found by \<^verbatim>\<open>findNetworkClusters\<close>,
  whose first account is the source of an activity, so the activities of the cluster are
  not empty.\<close>

definition generateNetworkEvidence :: "spread_event list \<Rightarrow> string list \<Rightarrow> coordination_evidence list" where
  "generateNetworkEvidence activities accs =
     [\<lparr> ev_type = ''network_cluster'',
        ev_description = ''Cluster of '' @ dec_nat (length accs)
                           @ '' interconnected accounts detected'',
        ev_accounts = accs,
        ev_timestamp = se_timestamp (hd activities),
        strength = js_min2 (Fin 1) (js_div (num (length accs)) (Fin 20)) \<rparr>]"

definition calculateActivityDensity :: "spread_event list \<Rightarrow> string list \<Rightarrow> jsnum" where
  "calculateActivityDensity activities accs =
     (let avgActivities = js_div (num (length activities)) (num (length accs))
      in js_min2 (Fin 1) (js_div avgActivities (Fin 10)))"

definition calculateAccountConsistency :: "spread_event list \<Rightarrow> jsnum" where
  "calculateAccountConsistency activities =
     (let types = map se_type activities;
          typeConsistency = js_div (num (length (new_Set types))) (num (length types))
      in js_sub (Fin 1) typeConsistency)"

definition calculateBehaviorConsistency :: "spread_event list \<Rightarrow> jsnum" where
  "calculateBehaviorConsistency activities =
     (let accountActivities = group_by sourceAccountId activities;
          (totalConsistency, accountCount) =
            foldl (\<lambda>(total, count) (account, accountActs).
                     if length accountActs \<ge> 2
                     then (js_add total (calculateAccountConsistency accountActs), count + 1)
                     else (total, count))
                  (Fin 0, 0::nat) accountActivities
      in if accountCount > 0 then js_div totalConsistency (num accountCount) else Fin 0)"

definition calculateNetworkConfidence :: "spread_event list \<Rightarrow> string list \<Rightarrow> jsnum" where
  "calculateNetworkConfidence activities accs =
     (let dens = calculateActivityDensity activities accs;
          consistency = calculateBehaviorConsistency activities
      in js_add (js_mul dens (Fin (6 / 10))) (js_mul consistency (Fin (4 / 10))))"

definition createNetworkPattern :: "spread_event list \<Rightarrow> string list \<Rightarrow> coordination_pattern" where
  "createNetworkPattern activities accs =
     \<lparr> accounts = accs,
       cp_type = Network,
       cp_confidence = calculateNetworkConfidence activities accs,
       evidence = generateNetworkEvidence activities accs,
       timeWindow = calculateTimeWindow activities \<rparr>"

definition detectNetworkCoordination :: "spread_event list \<Rightarrow> coordination_pattern list" where
  "detectNetworkCoordination activities =
     concat (map (\<lambda>cluster.
       if length (nc_accounts cluster) \<ge> minGroupSize then
         let clusterActivities =
               filter (\<lambda>a. sourceAccountId a \<in> set (nc_accounts cluster)) activities
         in [createNetworkPattern clusterActivities (nc_accounts cluster)]
       else []) (findNetworkClusters activities))"

text \<open>
  \<^verbatim>\<open>mergePatterns\<close>. The outer loop takes the first pattern that is not used as the
  base; the inner loop \<open>merge_into\<close> goes through the later patterns that are not used,
  and merges a pattern when at least \<open>minGroupSize - 1\<close> of its accounts are in the
  account set as grown so far. It returns the account set, the evidence, the patterns it
  merged (now used) and the patterns it left. The outer loop goes on with the patterns
  left, which are the ones not used. The confidence is the maximum over the base and all
  patterns used so far, those merged into earlier bases too; \<open>usedConfs\<close> are their
  confidences (\<^verbatim>\<open>Math.max\<close> does not depend on the order of its arguments).
\<close>

fun merge_into ::
  "string list \<Rightarrow> coordination_evidence list \<Rightarrow> coordination_pattern list
   \<Rightarrow> string list \<times> coordination_evidence list \<times> coordination_pattern list \<times> coordination_pattern list" where
  "merge_into accountSet evidenceList [] = (accountSet, evidenceList, [], [])"
| "merge_into accountSet evidenceList (p # ps) =
     (let overlap = filter (\<lambda>a. a \<in> set accountSet) (accounts p) in
      if length overlap \<ge> minGroupSize - 1 then
        (case merge_into (foldl set_add accountSet (accounts p)) (evidenceList @ evidence p) ps of
           (s, e, merged, rest) \<Rightarrow> (s, e, p # merged, rest))
      else
        (case merge_into accountSet evidenceList ps of
           (s, e, merged, rest) \<Rightarrow> (s, e, merged, p # rest)))"

lemma merge_into_rest_length:
  "length (snd (snd (snd (merge_into accountSet evidenceList ps)))) \<le> length ps"
proof (induction ps arbitrary: accountSet evidenceList)
  case Nil
  show ?case by simp
next
  case (Cons p ps)
  show ?case
    using Cons [of "foldl set_add accountSet (accounts p)" "evidenceList @ evidence p"]
      Cons [of accountSet evidenceList]
    by (auto simp: Let_def split: prod.splits)
qed

function mergePatterns_from :: "jsnum list \<Rightarrow> coordination_pattern list \<Rightarrow> coordination_pattern list" where
  "mergePatterns_from usedConfs [] = []"
| "mergePatterns_from usedConfs (basePattern # ps) =
     (case merge_into (new_Set (accounts basePattern)) (evidence basePattern) ps of
        (accountSet, evidenceList, merged, rest) \<Rightarrow>
          basePattern \<lparr> accounts := accountSet,
                        cp_type := Mixed,
                        evidence := evidenceList,
                        cp_confidence :=
                          js_max_list (cp_confidence basePattern
                                       # usedConfs @ map cp_confidence merged) \<rparr>
          # mergePatterns_from (usedConfs @ map cp_confidence merged) rest)"
  by pat_completeness auto

termination
proof (relation "measure (\<lambda>(usedConfs, ps). length ps)", goal_cases)
  case 1
  show ?case by simp
next
  case (2 usedConfs basePattern ps accountSet y evidenceList z merged rest)
  then have "merge_into (new_Set (accounts basePattern)) (evidence basePattern) ps
             = (accountSet, evidenceList, merged, rest)"
    by simp
  then have "rest = snd (snd (snd (merge_into (new_Set (accounts basePattern)) (evidence basePattern) ps)))"
    by simp
  then show ?case
    using merge_into_rest_length [of "new_Set (accounts basePattern)" "evidence basePattern" ps]
    by simp
qed

definition mergePatterns :: "coordination_pattern list \<Rightarrow> coordination_pattern list" where
  "mergePatterns patterns = mergePatterns_from [] patterns"

text \<open>\<^verbatim>\<open>storeCoordinationPatterns\<close> catches the failure of every store call, and the
  analysis id is used for the store only.\<close>

definition detectCoordination :: "spread_event list \<Rightarrow> string \<Rightarrow> coordination_pattern list" where
  "detectCoordination activities analysisId =
     mergePatterns (detectTemporalCoordination activities
                    @ detectContentCoordination activities
                    @ detectNetworkCoordination activities)"

section \<open>AnomalyDetector\<close>

text \<open>
  A \<^verbatim>\<open>Date\<close> is its time value, an integer of milliseconds. The optional fields
  \<^verbatim>\<open>tweetId\<close> and \<^verbatim>\<open>impact\<close> of a timeline event are never read. The
  \<^verbatim>\<open>description\<close> of an anomaly, a text for a reader built from values the anomaly
  carries in its other fields, is not modelled.
\<close>

record timeline_event =
  te_id :: string
  te_type :: timeline_type
  te_timestamp :: int
  te_accountId :: string
  te_cascadeDepth :: nat

datatype anomaly_type = spike | pattern | behavior | network

fun anomaly_type_str :: "anomaly_type \<Rightarrow> string" where
  "anomaly_type_str spike = ''spike''"
| "anomaly_type_str pattern = ''pattern''"
| "anomaly_type_str behavior = ''behavior''"
| "anomaly_type_str network = ''network''"

datatype severity = low | medium | high | critical

record anomaly_metrics =
  deviation :: jsnum
  baseline :: jsnum
  observed :: jsnum
  confidence :: jsnum

record anomaly =
  an_id :: string
  an_type :: anomaly_type
  an_severity :: severity
  an_timestamp :: int
  affectedAccounts :: "string list"
  an_metrics :: anomaly_metrics

record behavior_change =
  bc_timestamp :: int
  bc_severity :: severity
  bc_accounts :: "string list"
  bc_metrics :: anomaly_metrics

definition spikeThreshold :: jsnum where
  "spikeThreshold = Fin 3"

definition minEventsForAnalysis :: nat where
  "minEventsForAnalysis = 10"

text \<open>The comparator \<^verbatim>\<open>a.timestamp.getTime() - b.timestamp.getTime()\<close>.\<close>

definition by_timestamp :: "timeline_event \<Rightarrow> timeline_event \<Rightarrow> bool" where
  "by_timestamp a b = (te_timestamp a - te_timestamp b > 0)"

definition calculateVolumeByWindow :: "timeline_event list \<Rightarrow> int \<Rightarrow> (int \<times> nat) list" where
  "calculateVolumeByWindow timeline windowSize =
     foldl (\<lambda>volumeMap event.
              let windowStart = (te_timestamp event div windowSize) * windowSize
              in map_set volumeMap windowStart
                   ((case map_of volumeMap windowStart of None \<Rightarrow> 0 | Some c \<Rightarrow> c) + 1))
           [] timeline"

definition calculateStatistics :: "jsnum list \<Rightarrow> jsnum \<times> jsnum" where
  "calculateStatistics values =
     (if values = [] then (Fin 0, Fin 0)
      else
        let mean = js_div (js_sum values) (num (length values));
            variance = js_div (foldl (\<lambda>sum val. js_add sum (js_sq (js_sub val mean))) (Fin 0) values)
                              (num (length values));
            stdDev = js_sqrt variance
        in (mean, stdDev))"

definition calculateSpikeSeverity :: "jsnum \<Rightarrow> severity" where
  "calculateSpikeSeverity zScore =
     (let absZ = js_abs zScore in
      if js_ge absZ (Fin 5) then critical
      else if js_ge absZ (Fin 4) then high
      else if js_ge absZ (Fin 3) then medium
      else low)"

text \<open>The z-score of one window of \<^verbatim>\<open>detectVolumeSpikes\<close>:
  \<^verbatim>\<open>(volume - stats.mean) / stats.stdDev\<close>, with no check of the divisor.\<close>

definition zScore_of :: "jsnum \<times> jsnum \<Rightarrow> nat \<Rightarrow> jsnum" where
  "zScore_of stats volume = js_div (js_sub (num volume) (fst stats)) (snd stats)"

definition detectVolumeSpikes :: "timeline_event list \<Rightarrow> anomaly list" where
  "detectVolumeSpikes timeline =
     (let windowSize = 5 * 60 * 1000;
          volumeByWindow = calculateVolumeByWindow timeline windowSize;
          volumes = map snd volumeByWindow;
          stats = calculateStatistics (map num volumes)
      in concat (map (\<lambda>(timestamp, volume).
           let zScore = zScore_of stats volume in
           if js_gt (js_abs zScore) spikeThreshold then
             let affectedEvents =
                   filter (\<lambda>e. \<bar>te_timestamp e - timestamp\<bar> \<le> windowSize div 2) timeline
             in [\<lparr> an_id = ''spike-'' @ dec_int timestamp,
                    an_type = spike,
                    an_severity = calculateSpikeSeverity zScore,
                    an_timestamp = timestamp,
                    affectedAccounts = new_Set (map te_accountId affectedEvents),
                    an_metrics = \<lparr> deviation = zScore, baseline = fst stats,
                                   observed = num volume,
                                   confidence = js_min2 (Fin (99 / 100)) (js_div (js_abs zScore) (Fin 5)) \<rparr> \<rparr>]
           else []) volumeByWindow))"

text \<open>\<^verbatim>\<open>events.sort\<close> sorts the array of the account in place, so the
  \<^verbatim>\<open>events[0]\<close> read afterwards is the first of the sorted array.\<close>

definition calculateIntervals :: "timeline_event list \<Rightarrow> int list" where
  "calculateIntervals events = differences (map te_timestamp (sort_by by_timestamp events))"

definition calculateRegularity :: "int list \<Rightarrow> jsnum" where
  "calculateRegularity intervals =
     (if length intervals < 2 then Fin 0
      else
        let stats = calculateStatistics (map numi intervals) in
        if fst stats = Fin 0 then Fin 0
        else
          let cv = js_div (snd stats) (fst stats)
          in js_max2 (Fin 0) (js_sub (Fin 1) cv))"

text \<open>One clock read for the id of every anomaly pushed.\<close>

definition detectTemporalPatterns :: "world \<Rightarrow> nat \<Rightarrow> timeline_event list \<Rightarrow> anomaly list \<times> nat" where
  "detectTemporalPatterns w k timeline =
     foldl (\<lambda>(anomalies, k) (accountId, events).
              if length events < 5 then (anomalies, k)
              else
                let intervals = calculateIntervals events;
                    regularityScore = calculateRegularity intervals
                in if js_gt regularityScore (Fin (8 / 10)) then
                     (anomalies @
                        [\<lparr> an_id = ''pattern-'' @ accountId @ ''-'' @ dec_int (clock w k),
                           an_type = pattern,
                           an_severity = medium,
                           an_timestamp = te_timestamp (hd (sort_by by_timestamp events)),
                           affectedAccounts = [accountId],
                           an_metrics = \<lparr> deviation = regularityScore, baseline = Fin (5 / 10),
                                          observed = regularityScore,
                                          confidence = Fin (7 / 10) \<rparr> \<rparr>], k + 1)
                   else (anomalies, k))
           ([], k) (group_by te_accountId timeline)"

definition groupByBehavior :: "timeline_event list \<Rightarrow> (string \<times> timeline_event list) list" where
  "groupByBehavior timeline =
     group_by (\<lambda>event. timeline_type_str (te_type event) @ ''-'' @ dec_nat (te_cascadeDepth event))
              timeline"

text \<open>The loop of \<^verbatim>\<open>splitIntoWindows\<close>: the windows closed so far, the current
  window and its start.\<close>

definition splitIntoWindows :: "timeline_event list \<Rightarrow> int \<Rightarrow> timeline_event list list" where
  "splitIntoWindows events windowSize =
     (let sorted = sort_by by_timestamp events;
          windowStart0 = (case sorted of [] \<Rightarrow> 0 | e # _ \<Rightarrow> te_timestamp e);
          (windows, currentWindow, windowStart) =
            foldl (\<lambda>(windows, currentWindow, windowStart) event.
                     if te_timestamp event - windowStart > windowSize then
                       ((if length currentWindow > 0 then windows @ [currentWindow] else windows),
                        [event], te_timestamp event)
                     else (windows, currentWindow @ [event], windowStart))
                  ([], [], windowStart0) sorted
      in if length currentWindow > 0 then windows @ [currentWindow] else windows)"

text \<open>\<^verbatim>\<open>window2[0]\<close> is read only when the rate change is above 2, and then
  \<open>window2\<close> has an event.\<close>

definition compareBehavior :: "timeline_event list \<Rightarrow> timeline_event list \<Rightarrow> behavior_change option" where
  "compareBehavior window1 window2 =
     (let rate1 = length window1;
          rate2 = length window2;
          rateChange = js_div (js_abs (js_sub (num rate2) (num rate1))) (js_max2 (num rate1) (Fin 1))
      in if js_gt rateChange (Fin 2) then
           Some \<lparr> bc_timestamp = te_timestamp (hd window2),
                  bc_severity = (if js_gt rateChange (Fin 5) then high else medium),
                  bc_accounts = new_Set (map te_accountId window2),
                  bc_metrics = \<lparr> deviation = rateChange, baseline = num rate1, observed = num rate2,
                                 confidence = Fin (7 / 10) \<rparr> \<rparr>
         else None)"

fun compare_consecutive :: "timeline_event list list \<Rightarrow> behavior_change list" where
  "compare_consecutive (prevWindow # currWindow # ws) =
     (case compareBehavior prevWindow currWindow of
        Some change \<Rightarrow> change # compare_consecutive (currWindow # ws)
      | None \<Rightarrow> compare_consecutive (currWindow # ws))"
| "compare_consecutive ws = []"

definition detectBehaviorChanges :: "timeline_event list \<Rightarrow> behavior_change list" where
  "detectBehaviorChanges events =
     (if length events < 10 then []
      else compare_consecutive (splitIntoWindows events (10 * 60 * 1000)))"

definition detectBehaviorAnomalies :: "timeline_event list \<Rightarrow> anomaly list" where
  "detectBehaviorAnomalies timeline =
     concat (map (\<lambda>(behavior, events).
       map (\<lambda>change.
              \<lparr> an_id = ''behavior-'' @ behavior @ ''-'' @ dec_int (bc_timestamp change),
                an_type = anomaly_type.behavior,
                an_severity = bc_severity change,
                an_timestamp = bc_timestamp change,
                affectedAccounts = bc_accounts change,
                an_metrics = bc_metrics change \<rparr>)
           (detectBehaviorChanges events))
       (groupByBehavior timeline))"

text \<open>
  \<^verbatim>\<open>Math.max(...cascadeDepths)\<close> of no depth is \<open>-Infinity\<close>, which is not above 10.
  The deep-cascade anomaly reads the clock twice (its id, then its timestamp), a
  star-pattern anomaly once (its timestamp).
\<close>

definition detectNetworkAnomalies :: "world \<Rightarrow> nat \<Rightarrow> timeline_event list \<Rightarrow> anomaly list \<times> nat" where
  "detectNetworkAnomalies w k timeline =
     (let cascadeDepths = map te_cascadeDepth timeline;
          maxDepth = foldl max 0 cascadeDepths;
          (deep, k1) =
            (if cascadeDepths \<noteq> [] \<and> maxDepth > 10 then
               ([\<lparr> an_id = ''network-depth-'' @ dec_int (clock w k),
                   an_type = network,
                   an_severity = high,
                   an_timestamp = clock w (k + 1),
                   affectedAccounts =
                     map te_accountId
                       (filter (\<lambda>e. int (te_cascadeDepth e) \<ge> int maxDepth - 2) timeline),
                   an_metrics = \<lparr> deviation = num maxDepth, baseline = Fin 5,
                                  observed = num maxDepth, confidence = Fin (8 / 10) \<rparr> \<rparr>], k + 2)
             else ([], k));
          triggerCounts =
            foldl (\<lambda>m event.
                     if te_cascadeDepth event = 0 then
                       map_set m (te_accountId event)
                         (length (filter (\<lambda>e. te_cascadeDepth e = 1
                                    \<and> \<bar>te_timestamp e - te_timestamp event\<bar> < 60000) timeline))
                     else m)
                  [] timeline
      in foldl (\<lambda>(anomalies, k) (accountId, count).
                  if count > 20 then
                    (anomalies @
                       [\<lparr> an_id = ''network-star-'' @ accountId,
                          an_type = network,
                          an_severity = high,
                          an_timestamp = clock w k,
                          affectedAccounts = [accountId],
                          an_metrics = \<lparr> deviation = num count, baseline = Fin 5,
                                         observed = num count, confidence = Fin (9 / 10) \<rparr> \<rparr>], k + 1)
                  else (anomalies, k))
               (deep, k1) triggerCounts)"

definition getSeverityScore :: "anomaly \<Rightarrow> nat" where
  "getSeverityScore a = (case an_severity a of critical \<Rightarrow> 4 | high \<Rightarrow> 3 | medium \<Rightarrow> 2 | low \<Rightarrow> 1)"

text \<open>The deduplication key: the type, the affected accounts joined in the order of
  the list, and the minute \<^verbatim>\<open>Math.floor(timestamp / 60000)\<close>.\<close>

definition anomaly_key :: "anomaly \<Rightarrow> string" where
  "anomaly_key a =
     anomaly_type_str (an_type a) @ ''-'' @ js_join (affectedAccounts a) @ ''-''
       @ dec_int (an_timestamp a div 60000)"

definition unique_step :: "(string \<times> anomaly) list \<Rightarrow> anomaly \<Rightarrow> (string \<times> anomaly) list" where
  "unique_step unique a =
     (let key = anomaly_key a in
      case map_of unique key of
        None \<Rightarrow> map_set unique key a
      | Some old \<Rightarrow>
          if getSeverityScore a > getSeverityScore old then map_set unique key a
          else unique)"

definition unique_anomalies :: "anomaly list \<Rightarrow> (string \<times> anomaly) list" where
  "unique_anomalies anomalies = foldl unique_step [] anomalies"

definition priority_score :: "anomaly \<Rightarrow> jsnum" where
  "priority_score a = js_mul (num (getSeverityScore a)) (confidence (an_metrics a))"

text \<open>The comparator \<^verbatim>\<open>scoreB - scoreA\<close>.\<close>

definition by_priority :: "anomaly \<Rightarrow> anomaly \<Rightarrow> bool" where
  "by_priority a b = js_gt (js_sub (priority_score b) (priority_score a)) (Fin 0)"

definition prioritizeAnomalies :: "anomaly list \<Rightarrow> anomaly list" where
  "prioritizeAnomalies anomalies = sort_by by_priority (map snd (unique_anomalies anomalies))"

text \<open>The array \<^verbatim>\<open>anomalies\<close> of \<^verbatim>\<open>detectAnomalies\<close> after the four
  detectors have run on the sorted timeline, in the order in which they push.\<close>

definition detected_anomalies :: "world \<Rightarrow> nat \<Rightarrow> timeline_event list \<Rightarrow> anomaly list \<times> nat" where
  "detected_anomalies w k sortedTimeline =
     (let spikes = detectVolumeSpikes sortedTimeline;
          (patterns, k1) = detectTemporalPatterns w k sortedTimeline;
          behaviors = detectBehaviorAnomalies sortedTimeline;
          (networks, k2) = detectNetworkAnomalies w k1 sortedTimeline
      in (spikes @ patterns @ behaviors @ networks, k2))"

text \<open>
  \<^verbatim>\<open>storeAnomalies\<close> catches the failure of every store call, so the result does
  not depend on the store, and the analysis id is used for the store only. The early
  return for a short timeline comes before anything else.
\<close>

definition detectAnomalies :: "world \<Rightarrow> nat \<Rightarrow> timeline_event list \<Rightarrow> string \<Rightarrow> anomaly list \<times> nat" where
  "detectAnomalies w k timeline analysisId =
     (if length timeline < minEventsForAnalysis then ([], k)
      else
        let sortedTimeline = sort_by by_timestamp timeline;
            (anomalies, k2) = detected_anomalies w k sortedTimeline
        in (prioritizeAnomalies anomalies, k2))"

section \<open>NetworkAnalyzer\<close>

text \<open>
  Of a tweet and of a retweet, quote or reply the analyzers read the id, the author id,
  the optional author account, the optional text, the creation time and the cascade
  depth; a retweet, a quote and a reply are one record \<open>spread_item\<close>.
\<close>

record tweet =
  tw_id :: string
  tw_authorId :: string
  tw_text :: string
  tw_createdAt :: int
  tw_author :: "account option"

record spread_item =
  it_id :: string
  it_authorId :: string
  it_author :: "account option"
  it_text :: "string option"
  it_createdAt :: int
  it_cascadeDepth :: nat

datatype node_type = source | spreader | endpoint

record network_node =
  nn_id :: string
  nn_accountId :: string
  nn_type :: node_type
  influence :: jsnum
  connections :: "string list"
  nn_timestamp :: int

record spread_data =
  originalTweet :: tweet
  retweets :: "spread_item list"
  quotes :: "spread_item list"
  replies :: "spread_item list"
  sd_timeline :: "timeline_event list"
  networkGraph :: "network_node list"

record network_edge =
  ne_source :: string
  ne_target :: string
  ne_type :: spread_type
  weight :: jsnum
  ne_timestamp :: int

record time_distribution =
  hourly :: "jsnum list"
  daily :: "jsnum list"
  timezone :: string

record activity_pattern =
  timeDistribution :: time_distribution
  contentSimilarity :: jsnum
  coordinationScore :: jsnum
  burstiness :: jsnum

record cluster =
  cl_id :: string
  cl_nodes :: "string list"
  coherence :: jsnum
  activityPattern :: activity_pattern
  suspicionScore :: jsnum

record reach_metrics =
  directReach :: nat
  indirectReach :: nat
  cascadeDepth :: nat

datatype influencer_role = originator | amplifier | bridge

record influencer_node =
  in_accountId :: string
  influenceScore :: jsnum
  reachMetrics :: reach_metrics
  in_role :: influencer_role

record propagation_path =
  pp_nodes :: "string list"
  totalTime :: jsnum
  velocity :: jsnum
  reach :: nat

record network_metrics =
  totalNodes :: nat
  totalEdges :: nat
  nm_density :: jsnum
  averageDegree :: jsnum
  clusteringCoefficient :: jsnum
  modularity :: jsnum

record network_analysis =
  na_nodes :: "network_node list"
  na_edges :: "network_edge list"
  clusters :: "cluster list"
  influencers :: "influencer_node list"
  propagationPaths :: "propagation_path list"
  na_metrics :: network_metrics

text \<open>The node map and the edge list of \<^verbatim>\<open>buildNetworkGraph\<close> are the state of
  \<^verbatim>\<open>addNodeAndEdge\<close>.\<close>

definition addNodeAndEdge ::
  "(string \<times> network_node) list \<times> network_edge list \<Rightarrow> string \<Rightarrow> string \<Rightarrow> spread_type
   \<Rightarrow> int \<Rightarrow> jsnum \<Rightarrow> (string \<times> network_node) list \<times> network_edge list" where
  "addNodeAndEdge st accountId targetId type timestamp wght =
     (case st of (nodeMap, edges) \<Rightarrow>
        ((if map_of nodeMap accountId = None then
            map_set nodeMap accountId
              \<lparr> nn_id = ''node-'' @ accountId,
                nn_accountId = accountId,
                nn_type = spreader,
                influence = Fin 0,
                connections = [],
                nn_timestamp = timestamp \<rparr>
          else nodeMap),
         edges @ [\<lparr> ne_source = accountId, ne_target = targetId, ne_type = type,
                     weight = wght, ne_timestamp = timestamp \<rparr>]))"

text \<open>\<open>add_connection m who other\<close>: the node of \<open>who\<close>, if there is one, gets
  \<open>other\<close> in its connections unless it has it. The node object is the one in the map.\<close>

definition add_connection :: "(string \<times> network_node) list \<Rightarrow> string \<Rightarrow> string \<Rightarrow> (string \<times> network_node) list" where
  "add_connection nodeMap who other =
     (case map_of nodeMap who of
        None \<Rightarrow> nodeMap
      | Some n \<Rightarrow>
          if other \<in> set (connections n) then nodeMap
          else map_set nodeMap who (n \<lparr> connections := connections n @ [other] \<rparr>))"

definition buildNetworkGraph :: "spread_data \<Rightarrow> network_node list \<times> network_edge list" where
  "buildNetworkGraph spreadData =
     (let authorId = tw_authorId (originalTweet spreadData);
          sourceNode = \<lparr> nn_id = ''node-'' @ authorId,
                         nn_accountId = authorId,
                         nn_type = source,
                         influence = Fin 100,
                         connections = [],
                         nn_timestamp = tw_createdAt (originalTweet spreadData) \<rparr>;
          st0 = (map_set [] authorId sourceNode, []);
          st1 = foldl (\<lambda>st rt. addNodeAndEdge st (it_authorId rt) authorId retweet
                                 (it_createdAt rt) (Fin 1))
                      st0 (retweets spreadData);
          st2 = foldl (\<lambda>st qt. addNodeAndEdge st (it_authorId qt) authorId quote
                                 (it_createdAt qt) (Fin 2))
                      st1 (quotes spreadData);
          st3 = foldl (\<lambda>st rp. addNodeAndEdge st (it_authorId rp) authorId reply
                                 (it_createdAt rp) (Fin (3 / 2)))
                      st2 (replies spreadData);
          nodeMap = foldl (\<lambda>m edge. add_connection (add_connection m (ne_source edge) (ne_target edge))
                                                     (ne_target edge) (ne_source edge))
                          (fst st3) (snd st3)
      in (map snd nodeMap, snd st3))"

text \<open>\<^verbatim>\<open>adjacencyList.get(k)?.add(x)\<close>.\<close>

definition adj_add :: "(string \<times> string list) list \<Rightarrow> string \<Rightarrow> string \<Rightarrow> (string \<times> string list) list" where
  "adj_add adj k x =
     (case map_of adj k of None \<Rightarrow> adj | Some s \<Rightarrow> map_set adj k (set_add s x))"

definition buildAdjacencyList :: "network_node list \<Rightarrow> network_edge list \<Rightarrow> (string \<times> string list) list" where
  "buildAdjacencyList nodes edges =
     foldl (\<lambda>adj edge. adj_add (adj_add adj (ne_source edge) (ne_target edge))
                                (ne_target edge) (ne_source edge))
           (foldl (\<lambda>adj node. map_set adj (nn_accountId node) []) [] nodes)
           edges"

text \<open>The histograms over the local hour and the local day of the week, each count
  divided by the number of timestamps.\<close>

definition calculateTimeDistribution :: "world \<Rightarrow> int list \<Rightarrow> time_distribution" where
  "calculateTimeDistribution w timestamps =
     (let hourlyCount = foldl (\<lambda>h t. h[getHours w t := h ! getHours w t + 1])
                              (replicate 24 (0::nat)) timestamps;
          dailyCount = foldl (\<lambda>d t. d[getDay w t := d ! getDay w t + 1])
                             (replicate 7 (0::nat)) timestamps;
          total = length timestamps
      in \<lparr> hourly = map (\<lambda>c. js_div (num c) (num total)) hourlyCount,
           daily = map (\<lambda>c. js_div (num c) (num total)) dailyCount,
           timezone = ''UTC'' \<rparr>)"

text \<open>The coefficient of variation is the standard deviation divided by the average
  interval, with no check of the divisor.\<close>

definition calculateCoordinationScore :: "int list \<Rightarrow> jsnum" where
  "calculateCoordinationScore timestamps =
     (if length timestamps < 2 then Fin 0
      else
        let sorted = sort_by (\<lambda>a b. a - b > 0) timestamps;
            intervals = map numi (differences sorted);
            avgInterval = js_div (js_sum intervals) (num (length intervals));
            variance = js_div (foldl (\<lambda>sum interval. js_add sum (js_sq (js_sub interval avgInterval)))
                                     (Fin 0) intervals)
                              (num (length intervals));
            stdDev = js_sqrt variance;
            cv = js_div stdDev avgInterval
        in js_max2 (Fin 0) (js_sub (Fin 1) cv))"

text \<open>The \<^verbatim>\<open>calculateBurstiness\<close> of the network analyzer.\<close>

definition net_calculateBurstiness :: "int list \<Rightarrow> jsnum" where
  "net_calculateBurstiness timestamps =
     (if length timestamps < 2 then Fin 0
      else
        let sorted = sort_by (\<lambda>a b. a - b > 0) timestamps;
            timeRange = last sorted - hd sorted
        in if timeRange = 0 then Fin 1
           else
             let expectedInterval = js_div (numi timeRange) (num (length timestamps - 1));
                 intervals = map numi (differences sorted);
                 burstScore = js_div (num (length (filter (\<lambda>i. js_lt i (js_mul expectedInterval (Fin (5 / 10))))
                                                          intervals)))
                                     (num (length intervals))
             in burstScore)"

text \<open>The timestamps of the members of a cluster: for every member the timestamp of the
  first node with its account id, members without a node left out.\<close>

definition member_timestamps :: "string list \<Rightarrow> network_node list \<Rightarrow> int list" where
  "member_timestamps clusterNodes allNodes =
     List.map_filter (\<lambda>id. map_option nn_timestamp (find (\<lambda>n. nn_accountId n = id) allNodes))
       clusterNodes"

definition calculateActivityPattern :: "world \<Rightarrow> string list \<Rightarrow> network_node list \<Rightarrow> activity_pattern" where
  "calculateActivityPattern w clusterNodes allNodes =
     (let timestamps = member_timestamps clusterNodes allNodes
      in \<lparr> timeDistribution = calculateTimeDistribution w timestamps,
           contentSimilarity = Fin (5 / 10),
           coordinationScore = calculateCoordinationScore timestamps,
           burstiness = net_calculateBurstiness timestamps \<rparr>)"

definition calculateClusterCoherence :: "string list \<Rightarrow> network_edge list \<Rightarrow> jsnum" where
  "calculateClusterCoherence nodes edges =
     (let n = length nodes in
      if n < 2 then Fin 0
      else
        let actualEdges = length edges;
            possibleEdges = js_div (num (n * (n - 1))) (Fin 2)
        in js_div (num actualEdges) possibleEdges)"

definition calculateSuspicionScore :: "activity_pattern \<Rightarrow> jsnum \<Rightarrow> jsnum" where
  "calculateSuspicionScore ap coh =
     (let coordScore = js_mul (coordinationScore ap) (Fin (4 / 10));
          burstScore = js_mul (burstiness ap) (Fin (3 / 10));
          cohScore = js_mul coh (Fin (3 / 10))
      in js_min2 (Fin 1) (js_add (js_add coordScore burstScore) cohScore))"

text \<open>The edges of \<^verbatim>\<open>analyzeCluster\<close> whose source and target are both members of the
  cluster.\<close>

definition cluster_edges :: "string list \<Rightarrow> network_edge list \<Rightarrow> network_edge list" where
  "cluster_edges clusterNodes edges =
     filter (\<lambda>e. ne_source e \<in> set clusterNodes \<and> ne_target e \<in> set clusterNodes) edges"

text \<open>The id of a cluster reads the clock, then draws a random number.\<close>

definition analyzeCluster ::
  "world \<Rightarrow> nat \<Rightarrow> string list \<Rightarrow> network_node list \<Rightarrow> network_edge list \<Rightarrow> cluster \<times> nat" where
  "analyzeCluster w k clusterNodes allNodes edges =
     (let clusterEdges = cluster_edges clusterNodes edges;
          ap = calculateActivityPattern w clusterNodes allNodes;
          coh = calculateClusterCoherence clusterNodes clusterEdges;
          susp = calculateSuspicionScore ap coh
      in (\<lparr> cl_id = ''cluster-'' @ dec_int (clock w k) @ ''-'' @ random36 w (k + 1),
            cl_nodes = clusterNodes,
            coherence = coh,
            activityPattern = ap,
            suspicionScore = susp \<rparr>, k + 2))"

text \<open>One round of the loop of \<^verbatim>\<open>detectClusters\<close> over the nodes: the clusters found so
  far, the visited accounts and the index of the next clock read.\<close>

definition detectClusters_step ::
  "world \<Rightarrow> (string \<times> string list) list \<Rightarrow> network_node list \<Rightarrow> network_edge list
   \<Rightarrow> cluster list \<times> string list \<times> nat \<Rightarrow> network_node \<Rightarrow> cluster list \<times> string list \<times> nat" where
  "detectClusters_step w adjacencyList nodes edges state node =
     (case state of (cls, visited, k) \<Rightarrow>
        if nn_accountId node \<notin> set visited then
          let (cl, visited') = expandCluster (nn_accountId node) adjacencyList visited
          in if length cl \<ge> 3 then
               let (clusterData, k') = analyzeCluster w k cl nodes edges
               in (cls @ [clusterData], visited', k')
             else (cls, visited', k)
        else (cls, visited, k))"

definition detectClusters ::
  "world \<Rightarrow> nat \<Rightarrow> network_node list \<Rightarrow> network_edge list \<Rightarrow> cluster list \<times> nat" where
  "detectClusters w k nodes edges =
     (let adjacencyList = buildAdjacencyList nodes edges;
          (cls, visited, k') =
            foldl (detectClusters_step w adjacencyList nodes edges) ([], [], k) nodes
      in (cls, k'))"

definition calculateDegrees :: "network_node list \<Rightarrow> network_edge list \<Rightarrow> (string \<times> nat) list" where
  "calculateDegrees nodes edges =
     foldl (\<lambda>degrees edge.
              let d1 = map_set degrees (ne_source edge)
                         ((case map_of degrees (ne_source edge) of None \<Rightarrow> 0 | Some d \<Rightarrow> d) + 1)
              in map_set d1 (ne_target edge)
                   ((case map_of d1 (ne_target edge) of None \<Rightarrow> 0 | Some d \<Rightarrow> d) + 1))
           (foldl (\<lambda>degrees node. map_set degrees (nn_accountId node) 0) [] nodes)
           edges"

text \<open>
  The loop of \<^verbatim>\<open>bfsReach\<close>: the queue of accounts with their depths, the visited
  accounts, and the counters. It ends for the reason \<^verbatim>\<open>expandCluster\<close> ends.
\<close>

text \<open>The measure that decreases in every round of the loop below: the accounts not
  visited yet, then the length of the queue.\<close>

definition bfsReach_measure ::
  "(string \<times> string list) list \<times> (string \<times> nat) list \<times> string list \<times> nat \<times> nat \<times> nat \<Rightarrow> nat \<times> nat" where
  "bfsReach_measure = (\<lambda>(adj, queue, visited, direct, indirect, maxDepth).
     (card ((set (concat (map snd adj)) \<union> fst ` set queue) - set visited), length queue))"

function bfsReach_loop ::
  "(string \<times> string list) list \<Rightarrow> (string \<times> nat) list \<Rightarrow> string list \<Rightarrow> nat \<Rightarrow> nat \<Rightarrow> nat
   \<Rightarrow> reach_metrics" where
  "bfsReach_loop adj [] visited direct indirect maxDepth =
     \<lparr> directReach = direct, indirectReach = indirect, cascadeDepth = maxDepth \<rparr>"
| "bfsReach_loop adj ((node, depth) # queue) visited direct indirect maxDepth =
     (if node \<in> set visited then bfsReach_loop adj queue visited direct indirect maxDepth
      else bfsReach_loop adj
             (queue @ map (\<lambda>n. (n, depth + 1))
                        (filter (\<lambda>n. n \<notin> set (visited @ [node])) (neighbours_of adj node)))
             (visited @ [node])
             (if depth = 1 then direct + 1 else direct)
             (if depth = 1 then indirect else if depth > 1 then indirect + 1 else indirect)
             (max maxDepth depth))"
  by pat_completeness auto

termination
proof (relation "inv_image (less_than <*lex*> less_than) bfsReach_measure")
  show "wf (inv_image (less_than <*lex*> less_than) bfsReach_measure)"
    by (intro wf_inv_image wf_lex_prod wf_less_than)
next
  fix node :: string and visited :: "string list" and adj :: "(string \<times> string list) list"
    and depth :: nat and queue :: "(string \<times> nat) list" and direct indirect maxDepth :: nat
  assume "node \<in> set visited"
  have "(set (concat (map snd adj)) \<union> fst ` set queue) - set visited
        \<subseteq> (set (concat (map snd adj)) \<union> fst ` set ((node, depth) # queue)) - set visited"
    by auto
  then have "card ((set (concat (map snd adj)) \<union> fst ` set queue) - set visited)
        \<le> card ((set (concat (map snd adj)) \<union> fst ` set ((node, depth) # queue)) - set visited)"
    by (intro card_mono) auto
  then show "((adj, queue, visited, direct, indirect, maxDepth),
              (adj, (node, depth) # queue, visited, direct, indirect, maxDepth))
        \<in> inv_image (less_than <*lex*> less_than) bfsReach_measure"
    by (auto simp: bfsReach_measure_def)
next
  fix node :: string and visited :: "string list" and adj :: "(string \<times> string list) list"
    and depth :: nat and queue :: "(string \<times> nat) list" and direct indirect maxDepth :: nat
  assume nv: "node \<notin> set visited"
  let ?U = "set (concat (map snd adj))"
  let ?q = "queue @ map (\<lambda>n. (n, depth + 1))
                        (filter (\<lambda>n. n \<notin> set (visited @ [node])) (neighbours_of adj node))"
  have sub: "(?U \<union> fst ` set ?q) - set (visited @ [node])
             \<subset> (?U \<union> fst ` set ((node, depth) # queue)) - set visited"
    using nv neighbours_of_subset [of adj node] by (auto simp: image_iff)
  have "card ((?U \<union> fst ` set ?q) - set (visited @ [node]))
        < card ((?U \<union> fst ` set ((node, depth) # queue)) - set visited)"
    by (rule psubset_card_mono [OF _ sub]) auto
  then show "((adj, ?q, visited @ [node],
               (if depth = 1 then direct + 1 else direct),
               (if depth = 1 then indirect else if depth > 1 then indirect + 1 else indirect),
               max maxDepth depth),
              (adj, (node, depth) # queue, visited, direct, indirect, maxDepth))
        \<in> inv_image (less_than <*lex*> less_than) bfsReach_measure"
    by (simp add: bfsReach_measure_def)
qed

definition bfsReach :: "string \<Rightarrow> (string \<times> string list) list \<Rightarrow> reach_metrics" where
  "bfsReach start adjacencyList = bfsReach_loop adjacencyList [(start, 0)] [] 0 0 0"

definition calculateReach :: "network_node list \<Rightarrow> network_edge list \<Rightarrow> (string \<times> reach_metrics) list" where
  "calculateReach nodes edges =
     (let adjacencyList = buildAdjacencyList nodes edges
      in foldl (\<lambda>reachMap node. map_set reachMap (nn_accountId node)
                                   (bfsReach (nn_accountId node) adjacencyList))
               [] nodes)"

text \<open>\<^verbatim>\<open>Math.min(...[])\<close> is \<open>Infinity\<close> and \<^verbatim>\<open>Math.max(...[])\<close> is
  \<open>-Infinity\<close>: with no edge the time range is \<open>-Infinity\<close> and the temporal factor 0.\<close>

definition calculateInfluenceScore ::
  "network_node \<Rightarrow> nat \<Rightarrow> reach_metrics \<Rightarrow> network_edge list \<Rightarrow> jsnum" where
  "calculateInfluenceScore node degree rch edges =
     (let baseInfluence = (if nn_type node = source then Fin 50 else Fin 10);
          degreeFactor = js_mul (js_min2 (js_div (num degree) (Fin 10)) (Fin 1)) (Fin 30);
          reachFactor =
            js_mul (js_div (js_add (num (directReach rch))
                                   (js_mul (num (indirectReach rch)) (Fin (5 / 10))))
                           (Fin 20))
                   (Fin 20);
          nodeEdges = filter (\<lambda>e. ne_source e = nn_accountId node) edges;
          avgTimestamp =
            (if length nodeEdges > 0
             then js_div (foldl (\<lambda>sum e. js_add sum (numi (ne_timestamp e))) (Fin 0) nodeEdges)
                         (num (length nodeEdges))
             else numi (nn_timestamp node));
          earliestTime = js_min_list (map (\<lambda>e. numi (ne_timestamp e)) edges);
          timeRange = js_sub (js_max_list (map (\<lambda>e. numi (ne_timestamp e)) edges)) earliestTime;
          temporalFactor =
            (if js_gt timeRange (Fin 0)
             then js_mul (js_sub (Fin 1) (js_div (js_sub avgTimestamp earliestTime) timeRange)) (Fin 20)
             else Fin 0)
      in js_add (js_add (js_add baseInfluence degreeFactor) reachFactor) temporalFactor)"

definition determineInfluencerRole :: "network_node \<Rightarrow> spread_data \<Rightarrow> influencer_role" where
  "determineInfluencerRole node spreadData =
     (if nn_accountId node = tw_authorId (originalTweet spreadData) then originator
      else if length (connections node) > 5 then bridge
      else amplifier)"

text \<open>The comparator \<^verbatim>\<open>b.influenceScore - a.influenceScore\<close>.\<close>

definition by_influence :: "influencer_node \<Rightarrow> influencer_node \<Rightarrow> bool" where
  "by_influence a b = js_gt (js_sub (influenceScore b) (influenceScore a)) (Fin 0)"

definition identifyInfluencers ::
  "network_node list \<Rightarrow> network_edge list \<Rightarrow> spread_data \<Rightarrow> influencer_node list" where
  "identifyInfluencers nodes edges spreadData =
     (let degreeMap = calculateDegrees nodes edges;
          reachMap = calculateReach nodes edges
      in sort_by by_influence
           (concat (map (\<lambda>node.
              let degree = (case map_of degreeMap (nn_accountId node) of None \<Rightarrow> 0 | Some d \<Rightarrow> d);
                  rch = (case map_of reachMap (nn_accountId node) of
                           None \<Rightarrow> \<lparr> directReach = 0, indirectReach = 0, cascadeDepth = 0 \<rparr>
                         | Some r \<Rightarrow> r);
                  score = calculateInfluenceScore node degree rch edges
              in if js_gt score (Fin 10) then
                   [\<lparr> in_accountId = nn_accountId node,
                      influenceScore = score,
                      reachMetrics = rch,
                      in_role = determineInfluencerRole node spreadData \<rparr>]
                 else []) nodes)))"

definition findLeafNodes :: "network_node list \<Rightarrow> network_edge list \<Rightarrow> network_node list" where
  "findLeafNodes nodes edges =
     (let hasOutgoing = new_Set (map ne_source edges)
      in filter (\<lambda>n. nn_accountId n \<notin> set hasOutgoing) nodes)"

text \<open>The reverse adjacency of \<^verbatim>\<open>findPath\<close>: a target mapped to the array of the
  sources of its edges.\<close>

definition parents_map :: "network_edge list \<Rightarrow> (string \<times> string list) list" where
  "parents_map edges =
     foldl (\<lambda>m edge. map_set m (ne_target edge) (neighbours_of m (ne_target edge) @ [ne_source edge]))
           [] edges"

text \<open>The loop of \<^verbatim>\<open>findPath\<close>: the queue of accounts with the path that led to
  them. The account is compared with the start before it is looked up in the visited
  set. When the queue is empty the result is the empty path.\<close>

text \<open>The measure that decreases in every round of the loop below: the accounts not
  visited yet, then the length of the queue.\<close>

definition findPath_measure ::
  "string \<times> (string \<times> string list) list \<times> (string \<times> string list) list \<times> string list \<Rightarrow> nat \<times> nat" where
  "findPath_measure = (\<lambda>(start, adj, queue, visited).
     (card ((set (concat (map snd adj)) \<union> fst ` set queue) - set visited), length queue))"

function findPath_loop ::
  "string \<Rightarrow> (string \<times> string list) list \<Rightarrow> (string \<times> string list) list \<Rightarrow> string list
   \<Rightarrow> string list" where
  "findPath_loop start adj [] visited = []"
| "findPath_loop start adj ((node, path) # queue) visited =
     (if node = start then rev path
      else if node \<in> set visited then findPath_loop start adj queue visited
      else findPath_loop start adj
             (queue @ map (\<lambda>parent. (parent, path @ [parent]))
                        (filter (\<lambda>parent. parent \<notin> set (visited @ [node])) (neighbours_of adj node)))
             (visited @ [node]))"
  by pat_completeness auto

termination
proof (relation "inv_image (less_than <*lex*> less_than) findPath_measure")
  show "wf (inv_image (less_than <*lex*> less_than) findPath_measure)"
    by (intro wf_inv_image wf_lex_prod wf_less_than)
next
  fix node start :: string and visited path :: "string list"
    and adj queue :: "(string \<times> string list) list"
  assume "node \<noteq> start" "node \<in> set visited"
  have "(set (concat (map snd adj)) \<union> fst ` set queue) - set visited
        \<subseteq> (set (concat (map snd adj)) \<union> fst ` set ((node, path) # queue)) - set visited"
    by auto
  then have "card ((set (concat (map snd adj)) \<union> fst ` set queue) - set visited)
        \<le> card ((set (concat (map snd adj)) \<union> fst ` set ((node, path) # queue)) - set visited)"
    by (intro card_mono) auto
  then show "((start, adj, queue, visited), (start, adj, (node, path) # queue, visited))
        \<in> inv_image (less_than <*lex*> less_than) findPath_measure"
    by (auto simp: findPath_measure_def)
next
  fix node start :: string and visited path :: "string list"
    and adj queue :: "(string \<times> string list) list"
  assume "node \<noteq> start" and nv: "node \<notin> set visited"
  let ?U = "set (concat (map snd adj))"
  let ?q = "queue @ map (\<lambda>parent. (parent, path @ [parent]))
                        (filter (\<lambda>parent. parent \<notin> set (visited @ [node])) (neighbours_of adj node))"
  have sub: "(?U \<union> fst ` set ?q) - set (visited @ [node])
             \<subset> (?U \<union> fst ` set ((node, path) # queue)) - set visited"
    using nv neighbours_of_subset [of adj node] by (auto simp: image_iff)
  have "card ((?U \<union> fst ` set ?q) - set (visited @ [node]))
        < card ((?U \<union> fst ` set ((node, path) # queue)) - set visited)"
    by (rule psubset_card_mono [OF _ sub]) auto
  then show "((start, adj, ?q, visited @ [node]), (start, adj, (node, path) # queue, visited))
        \<in> inv_image (less_than <*lex*> less_than) findPath_measure"
    by (simp add: findPath_measure_def)
qed

definition findPath :: "string \<Rightarrow> string \<Rightarrow> network_edge list \<Rightarrow> string list" where
  "findPath start end edges = findPath_loop start (parents_map edges) [(end, [end])] []"

text \<open>
  \<^verbatim>\<open>nodes.find(...)!\<close> is not checked at run time: for an account of the path that
  is no node, reading its timestamp throws a TypeError. The path has more than one
  account, so the minimum and the maximum of the timestamps are numbers.
\<close>

definition analyzeePath ::
  "string list \<Rightarrow> network_node list \<Rightarrow> network_edge list \<Rightarrow> error + propagation_path" where
  "analyzeePath path nodes edges =
     (let found = map (\<lambda>id. find (\<lambda>n. nn_accountId n = id) nodes) path in
      if None \<in> set found then Inl TypeError
      else
        let pathNodes = map the found;
            timestamps = map (\<lambda>n. numi (nn_timestamp n)) pathNodes;
            total = js_sub (js_max_list timestamps) (js_min_list timestamps);
            vel = js_div (num (length path)) (js_div total (Fin (1000 * 60)));
            rch = sum_list (map (\<lambda>n. length (connections n)) pathNodes)
        in Inr \<lparr> pp_nodes = path, totalTime = total, velocity = vel, reach = rch \<rparr>)"

text \<open>The comparator \<^verbatim>\<open>b.reach - a.reach\<close>.\<close>

definition by_reach :: "propagation_path \<Rightarrow> propagation_path \<Rightarrow> bool" where
  "by_reach a b = (int (reach b) - int (reach a) > 0)"

fun trace_leaves ::
  "string \<Rightarrow> network_node list \<Rightarrow> network_edge list \<Rightarrow> network_node list
   \<Rightarrow> error + propagation_path list" where
  "trace_leaves sourceId nodes edges [] = Inr []"
| "trace_leaves sourceId nodes edges (leaf # leaves) =
     (let path = findPath sourceId (nn_accountId leaf) edges in
      if length path > 1 then
        (case analyzeePath path nodes edges of
           Inl e \<Rightarrow> Inl e
         | Inr pathData \<Rightarrow>
             (case trace_leaves sourceId nodes edges leaves of
                Inl e \<Rightarrow> Inl e
              | Inr paths \<Rightarrow> Inr (pathData # paths)))
      else trace_leaves sourceId nodes edges leaves)"

definition tracePropagationPaths ::
  "network_node list \<Rightarrow> network_edge list \<Rightarrow> spread_data \<Rightarrow> error + propagation_path list" where
  "tracePropagationPaths nodes edges spreadData =
     (case trace_leaves (tw_authorId (originalTweet spreadData)) nodes edges
             (findLeafNodes nodes edges) of
        Inl e \<Rightarrow> Inl e
      | Inr paths \<Rightarrow> Inr (take 10 (sort_by by_reach paths)))"

definition calculateDensity :: "nat \<Rightarrow> nat \<Rightarrow> jsnum" where
  "calculateDensity nodeCount edgeCount =
     (if nodeCount < 2 then Fin 0
      else js_div (num edgeCount) (js_div (num (nodeCount * (nodeCount - 1))) (Fin 2)))"

text \<open>The pairs \<open>i < j\<close> of neighbours that are adjacent:
  \<^verbatim>\<open>adjacencyList.get(neighbors[i])?.has(neighbors[j])\<close>.\<close>

fun adjacent_pairs :: "(string \<times> string list) list \<Rightarrow> string list \<Rightarrow> nat" where
  "adjacent_pairs adj [] = 0"
| "adjacent_pairs adj (a # rest) =
     length (filter (\<lambda>b. b \<in> set (neighbours_of adj a)) rest) + adjacent_pairs adj rest"

definition calculateClusteringCoefficient :: "network_node list \<Rightarrow> network_edge list \<Rightarrow> jsnum" where
  "calculateClusteringCoefficient nodes edges =
     (let adjacencyList = buildAdjacencyList nodes edges;
          (totalCoefficient, validNodes) =
            foldl (\<lambda>(total, valid) node.
                     let neighbors = neighbours_of adjacencyList (nn_accountId node) in
                     if length neighbors \<ge> 2 then
                       let possibleEdges =
                             js_div (num (length neighbors * (length neighbors - 1))) (Fin 2);
                           actualEdges = adjacent_pairs adjacencyList neighbors
                       in (js_add total (js_div (num actualEdges) possibleEdges), valid + 1)
                     else (total, valid))
                  (Fin 0, 0::nat) nodes
      in if validNodes > 0 then js_div totalCoefficient (num validNodes) else Fin 0)"

definition calculateModularity :: "network_node list \<Rightarrow> network_edge list \<Rightarrow> jsnum" where
  "calculateModularity nodes edges = Fin (5 / 10)"

definition calculateNetworkMetrics :: "network_node list \<Rightarrow> network_edge list \<Rightarrow> network_metrics" where
  "calculateNetworkMetrics nodes edges =
     (let degrees = calculateDegrees nodes edges;
          totalDegree = sum_list (map snd degrees)
      in \<lparr> totalNodes = length nodes,
           totalEdges = length edges,
           nm_density = calculateDensity (length nodes) (length edges),
           averageDegree = js_div (num totalDegree) (num (length nodes)),
           clusteringCoefficient = calculateClusteringCoefficient nodes edges,
           modularity = calculateModularity nodes edges \<rparr>)"

text \<open>
  \<^verbatim>\<open>analyzeNetwork\<close>. The graph is written to the graph store before the analysis,
  and a failure of that call is not caught; \<^verbatim>\<open>storeAnalysisResults\<close> catches its
  failures. The analysis id is used for the stores only.
\<close>

definition analyzeNetwork ::
  "stores \<Rightarrow> world \<Rightarrow> nat \<Rightarrow> spread_data \<Rightarrow> string \<Rightarrow> error + (network_analysis \<times> nat)" where
  "analyzeNetwork st w k spreadData analysisId =
     (let (nodes, edges) = buildNetworkGraph spreadData in
      if \<not> neo4j_ok st then Inl StoreError
      else
        let (cls, k') = detectClusters w k nodes edges;
            infl = identifyInfluencers nodes edges spreadData
        in case tracePropagationPaths nodes edges spreadData of
             Inl e \<Rightarrow> Inl e
           | Inr paths \<Rightarrow>
               Inr (\<lparr> na_nodes = nodes,
                      na_edges = edges,
                      clusters = cls,
                      influencers = infl,
                      propagationPaths = paths,
                      na_metrics = calculateNetworkMetrics nodes edges \<rparr>, k'))"

section \<open>AnalysisEngine\<close>









section \<open>Example inputs\<close>

text \<open>The concrete inputs at which the properties below are evaluated.\<close>

definition frozen_world :: "int \<Rightarrow> world" where
  "frozen_world t =
     \<lparr> clock = (\<lambda>k. t), random36 = (\<lambda>k. ''0''),
       getHours = (\<lambda>t. nat ((t div 3600000) mod 24)),
       getDay = (\<lambda>t. nat ((t div 86400000 + 4) mod 7)) \<rparr>"

definition tl_event :: "timeline_type \<Rightarrow> int \<Rightarrow> string \<Rightarrow> nat \<Rightarrow> timeline_event" where
  "tl_event ty t acc d =
     \<lparr> te_id = [], te_type = ty, te_timestamp = t, te_accountId = acc, te_cascadeDepth = d \<rparr>"

definition reordered_timeline :: "timeline_event list" where
  "reordered_timeline =
     [ tl_event original 0 ''o'' 0,
       tl_event (spread retweet) 0 ''c'' 1,
       tl_event (spread quote) 0 ''c'' 1 ]
     @ map (\<lambda>acc. tl_event (spread retweet) 660000 acc 1)
         [''a'', ''b'', ''a'', ''b'', ''a'', ''b'', ''a'', ''b'', ''a'']
     @ map (\<lambda>acc. tl_event (spread quote) 660000 acc 1)
         [''b'', ''a'', ''b'', ''a'', ''b'', ''a'', ''b'', ''a'', ''b'']"

definition escalating_timeline :: "timeline_event list" where
  "escalating_timeline =
     [tl_event original 0 ''o'' 0,
      tl_event (spread retweet) 0 ''c'' 1,
      tl_event (spread retweet) 0 ''c'' 1,
      tl_event (spread quote) 0 ''c'' 1,
      tl_event (spread retweet) 660000 ''a'' 1,
      tl_event (spread retweet) 660000 ''b'' 1,
      tl_event (spread retweet) 660000 ''a'' 1,
      tl_event (spread retweet) 660000 ''b'' 1,
      tl_event (spread retweet) 660000 ''a'' 1,
      tl_event (spread retweet) 660000 ''b'' 1,
      tl_event (spread retweet) 660000 ''a'' 1,
      tl_event (spread retweet) 660000 ''b'' 1,
      tl_event (spread quote) 660000 ''a'' 1,
      tl_event (spread quote) 660000 ''b'' 1,
      tl_event (spread quote) 660000 ''a'' 1,
      tl_event (spread quote) 660000 ''b'' 1,
      tl_event (spread quote) 660000 ''a'' 1,
      tl_event (spread quote) 660000 ''b'' 1,
      tl_event (spread quote) 660000 ''a'' 1,
      tl_event (spread quote) 660000 ''b'' 1,
      tl_event (spread quote) 660000 ''a'' 1]"

definition medium_change :: anomaly where
  "medium_change =
     \<lparr> an_id = ''behavior-retweet-1-660000'', an_type = behavior, an_severity = medium,
        an_timestamp = 660000, affectedAccounts = [''a'', ''b''],
        an_metrics = \<lparr> deviation = Fin 3, baseline = Fin 2, observed = Fin 8,
                       confidence = Fin (7 / 10) \<rparr> \<rparr>"

definition high_change :: anomaly where
  "high_change =
     \<lparr> an_id = ''behavior-quote-1-660000'', an_type = behavior, an_severity = high,
        an_timestamp = 660000, affectedAccounts = [''a'', ''b''],
        an_metrics = \<lparr> deviation = Fin 8, baseline = Fin 1, observed = Fin 9,
                       confidence = Fin (7 / 10) \<rparr> \<rparr>"

definition steady_timeline :: "timeline_event list" where
  "steady_timeline =
     map (\<lambda>i. tl_event (spread retweet) (300000 * int i) ''a'' 1) [0, 1, 2, 3, 4, 5, 6, 7, 8, 9]"

definition short_timeline :: "timeline_event list" where
  "short_timeline = [tl_event original 0 ''o'' 0, tl_event (spread retweet) 1000 ''a'' 1]"

definition example_pattern :: "string list \<Rightarrow> coordination_pattern" where
  "example_pattern accs =
     \<lparr> accounts = accs, cp_type = Temporal, cp_confidence = Fin (1 / 2), evidence = [],
       timeWindow = \<lparr> tw_start = Some 0, tw_end = Some 0 \<rparr> \<rparr>"

definition chained_patterns :: "coordination_pattern list" where
  "chained_patterns =
     [example_pattern [''a'', ''b'', ''c''],
      example_pattern [''c'', ''d'', ''e''],
      example_pattern [''a'', ''b'', ''d'', ''e'']]"

definition apart_patterns :: "coordination_pattern list" where
  "apart_patterns =
     [example_pattern [''a'', ''b'', ''c''],
      example_pattern [''c'', ''d'', ''e'']]"

definition spread_ev :: "string \<Rightarrow> string \<Rightarrow> int \<Rightarrow> spread_event" where
  "spread_ev i acc t =
     \<lparr> se_id = i, se_type = retweet, sourceAccountId = acc, targetTweetId = ''t0'',
       se_timestamp = t, se_cascadeDepth = 1, se_content = None \<rparr>"

definition three_retweets :: "spread_event list" where
  "three_retweets = [spread_ev ''1'' ''a'' 0, spread_ev ''2'' ''b'' 1000, spread_ev ''3'' ''c'' 2000]"

text \<open>The part of a result that \<^verbatim>\<open>analyzeNetwork\<close> returns when it returns one.\<close>

definition returned_analysis :: "error + (network_analysis \<times> nat) \<Rightarrow> network_analysis option" where
  "returned_analysis res = (case res of Inl e \<Rightarrow> None | Inr (r, k) \<Rightarrow> Some r)"

definition ok_stores :: stores where
  "ok_stores = \<lparr> neo4j_ok = True, pg_ok = True \<rparr>"

definition item :: "string \<Rightarrow> string \<Rightarrow> int \<Rightarrow> spread_item" where
  "item i acc t =
     \<lparr> it_id = i, it_authorId = acc, it_author = None, it_text = Some ''text'',
       it_createdAt = t, it_cascadeDepth = 1 \<rparr>"

definition post :: "string \<Rightarrow> int \<Rightarrow> tweet" where
  "post acc t =
     \<lparr> tw_id = ''t0'', tw_authorId = acc, tw_text = ''text'', tw_createdAt = t, tw_author = None \<rparr>"

definition busy_data :: spread_data where
  "busy_data =
     \<lparr> originalTweet = post ''o'' 0,
       retweets = [item ''1'' ''a'' 1000, item ''2'' ''b'' 2000],
       quotes = [item ''3'' ''a'' 3000, item ''4'' ''b'' 4000],
       replies = [],
       sd_timeline = [],
       networkGraph = [] \<rparr>"

definition simultaneous_data :: spread_data where
  "simultaneous_data =
     \<lparr> originalTweet = post ''o'' 0,
       retweets = [item ''1'' ''a'' 0, item ''2'' ''b'' 0],
       quotes = [],
       replies = [],
       sd_timeline = [],
       networkGraph = [] \<rparr>"

definition lonely_data :: spread_data where
  "lonely_data =
     \<lparr> originalTweet = post ''o'' 0, retweets = [], quotes = [], replies = [],
       sd_timeline = [], networkGraph = [] \<rparr>"

definition busy_nodes :: "network_node list" where
  "busy_nodes =
     [\<lparr> nn_id = ''node-o'', nn_accountId = ''o'', nn_type = source, influence = Fin 100,
        connections = [''a'', ''b''], nn_timestamp = 0 \<rparr>,
      \<lparr> nn_id = ''node-a'', nn_accountId = ''a'', nn_type = spreader, influence = Fin 0,
        connections = [''o''], nn_timestamp = 1000 \<rparr>,
      \<lparr> nn_id = ''node-b'', nn_accountId = ''b'', nn_type = spreader, influence = Fin 0,
        connections = [''o''], nn_timestamp = 2000 \<rparr>]"

definition busy_edges :: "network_edge list" where
  "busy_edges =
     [\<lparr> ne_source = ''a'', ne_target = ''o'', ne_type = retweet, weight = Fin 1, ne_timestamp = 1000 \<rparr>,
      \<lparr> ne_source = ''b'', ne_target = ''o'', ne_type = retweet, weight = Fin 1, ne_timestamp = 2000 \<rparr>,
      \<lparr> ne_source = ''a'', ne_target = ''o'', ne_type = quote, weight = Fin 2, ne_timestamp = 3000 \<rparr>,
      \<lparr> ne_source = ''b'', ne_target = ''o'', ne_type = quote, weight = Fin 2, ne_timestamp = 4000 \<rparr>]"

definition simultaneous_nodes :: "network_node list" where
  "simultaneous_nodes =
     [\<lparr> nn_id = ''node-o'', nn_accountId = ''o'', nn_type = source, influence = Fin 100,
        connections = [''a'', ''b''], nn_timestamp = 0 \<rparr>,
      \<lparr> nn_id = ''node-a'', nn_accountId = ''a'', nn_type = spreader, influence = Fin 0,
        connections = [''o''], nn_timestamp = 0 \<rparr>,
      \<lparr> nn_id = ''node-b'', nn_accountId = ''b'', nn_type = spreader, influence = Fin 0,
        connections = [''o''], nn_timestamp = 0 \<rparr>]"

definition simultaneous_edges :: "network_edge list" where
  "simultaneous_edges =
     [\<lparr> ne_source = ''a'', ne_target = ''o'', ne_type = retweet, weight = Fin 1, ne_timestamp = 0 \<rparr>,
      \<lparr> ne_source = ''b'', ne_target = ''o'', ne_type = retweet, weight = Fin 1, ne_timestamp = 0 \<rparr>]"




section \<open>Invariants and relations used in the proofs\<close>

text \<open>The deduplication map after the anomalies \<open>xs\<close>: its keys are distinct, every entry
  is one of \<open>xs\<close> under its own key, and every anomaly of \<open>xs\<close> has an entry under its
  key that is at least as severe.\<close>

definition unique_inv :: "anomaly list \<Rightarrow> (string \<times> anomaly) list \<Rightarrow> bool" where
  "unique_inv xs u \<longleftrightarrow>
     distinct (map fst u)
     \<and> (\<forall>(k, b) \<in> set u. k = anomaly_key b \<and> b \<in> set xs)
     \<and> (\<forall>a \<in> set xs. \<exists>b. map_of u (anomaly_key a) = Some b
            \<and> getSeverityScore a \<le> getSeverityScore b)"


text \<open>Two anomalies agree on what the deduplication key is built from.\<close>

definition same_dedup_triple :: "anomaly \<Rightarrow> anomaly \<Rightarrow> bool" where
  "same_dedup_triple a b \<longleftrightarrow>
     an_type a = an_type b \<and> affectedAccounts a = affectedAccounts b
     \<and> an_timestamp a div 60000 = an_timestamp b div 60000"

text \<open>No pattern of the list shares \<open>minGroupSize - 1\<close> or more of its accounts with
  an earlier pattern, counted as \<^verbatim>\<open>mergePatterns\<close> counts the overlap.\<close>

fun separated :: "coordination_pattern list \<Rightarrow> bool" where
  "separated [] = True"
| "separated (p # ps) =
     ((\<forall>q \<in> set ps. length (filter (\<lambda>a. a \<in> set (accounts p)) (accounts q)) < minGroupSize - 1)
      \<and> separated ps)"

text \<open>The node map and the edges while \<^verbatim>\<open>buildNetworkGraph\<close> runs: the first entry
  of the map is the source node of the author, every other entry is a spreader under its
  own account id that is the source of an edge, and every edge points to the author.\<close>

definition graph_inv :: "string \<Rightarrow> (string \<times> network_node) list \<times> network_edge list \<Rightarrow> bool" where
  "graph_inv authorId st \<longleftrightarrow>
     (\<exists>src rest. fst st = (authorId, src) # rest
        \<and> nn_type src = source \<and> nn_accountId src = authorId \<and> influence src = Fin 100
        \<and> (\<forall>(k, n) \<in> set rest. k \<noteq> authorId \<and> nn_accountId n = k \<and> nn_type n = spreader
               \<and> k \<in> ne_source ` set (snd st)))
     \<and> (\<forall>e \<in> set (snd st). ne_target e = authorId)"



definition clock_free_anomaly :: "anomaly \<Rightarrow> anomaly" where
  "clock_free_anomaly a =
     a \<lparr> an_id := [], an_timestamp := (if an_type a = network then 0 else an_timestamp a) \<rparr>"



section \<open>Auxiliary facts\<close>

subsection \<open>Numbers, maps and sorting\<close>

lemma js_lt_NaN [simp]: "js_lt x NaN = False"
  by (cases x) simp_all

lemma js_sum_Fin_aux: "foldl js_add (Fin a) (map (\<lambda>v. Fin (f v)) xs) = Fin (a + sum_list (map f xs))"
  by (induction xs arbitrary: a) (simp_all add: add.assoc)

lemma statistics_constant:
  assumes "\<forall>v \<in> set vs. v = c" and "vs \<noteq> []"
  shows "calculateStatistics (map num vs) = (Fin (real c), Fin 0)"
proof -
  have vs: "vs = replicate (length vs) c"
    using assms(1) by (simp add: replicate_length_same)
  have len: "0 < length vs" using assms(2) by simp
  have s: "js_sum (map num vs) = Fin (real (length vs) * real c)"
  proof -
    have "sum_list (map real vs) = real (length vs) * real c"
      by (subst vs) (simp add: sum_list_replicate)
    then show ?thesis
      unfolding js_sum_def using js_sum_Fin_aux [of 0 real vs]
      by (simp add: num_def [abs_def])
  qed
  have m: "js_div (js_sum (map num vs)) (num (length vs)) = Fin (real c)"
    using len by (simp add: s num_def)
  have dev: "foldl (\<lambda>sum val. js_add sum (js_sq (js_sub val (Fin (real c))))) (Fin 0) (map num (replicate n c)) = Fin 0" for n
    by (induction n) (simp_all add: num_def js_sq_def js_sub_def)
  have dev': "foldl (\<lambda>sum val. js_add sum (js_sq (js_sub val (Fin (real c))))) (Fin 0) (map num vs) = Fin 0"
    by (subst vs) (rule dev)
  have "calculateStatistics (map num vs) = (Fin (real c), js_sqrt (js_div (Fin 0) (num (length vs))))"
    using assms(2) by (simp add: calculateStatistics_def Let_def m dev')
  then show ?thesis
    using len by (simp add: num_def)
qed


lemma map_fst_map_set:
  "map fst (map_set m k v) = (if k \<in> fst ` set m then map fst m else map fst m @ [k])"
  by (induction m) force+

lemma map_of_map_set: "map_of (map_set m k v) = (map_of m)(k \<mapsto> v)"
  by (induction m) (auto)

lemma set_map_set_subset: "set (map_set m k v) \<subseteq> insert (k, v) (set m)"
  by (induction m) (auto split: if_splits)

lemma distinct_map_set: "distinct (map fst m) \<Longrightarrow> distinct (map fst (map_set m k v))"
  by (simp add: map_fst_map_set)

lemma set_insert_by: "set (insert_by cmp x ys) = insert x (set ys)"
  by (induction ys) auto

lemma set_sort_by: "set (sort_by cmp xs) = set xs"
  by (induction xs) (simp_all add: set_insert_by)

lemma distinct_map_insert_by:
  "distinct (map f (insert_by cmp x ys)) = (f x \<notin> f ` set ys \<and> distinct (map f ys))"
  by (induction ys) (auto simp: set_insert_by)

lemma distinct_map_sort_by: "distinct (map f (sort_by cmp xs)) = distinct (map f xs)"
  by (induction xs) (simp_all add: distinct_map_insert_by set_sort_by)

lemma length_insert_by: "length (insert_by cmp x ys) = Suc (length ys)"
  by (induction ys) auto

lemma length_sort_by: "length (sort_by cmp xs) = length xs"
  by (induction xs) (simp_all add: length_insert_by)

lemma unique_anomalies_inv: "unique_inv xs (unique_anomalies xs)"
proof (induction xs rule: rev_induct)
  case Nil
  show ?case by (simp add: unique_inv_def unique_anomalies_def)
next
  case (snoc a xs)
  define u where "u = unique_anomalies xs"
  have inv: "distinct (map fst u)"
    "\<And>k b. (k, b) \<in> set u \<Longrightarrow> k = anomaly_key b \<and> b \<in> set xs"
    "\<And>c. c \<in> set xs \<Longrightarrow> \<exists>b. map_of u (anomaly_key c) = Some b
            \<and> getSeverityScore c \<le> getSeverityScore b"
    using snoc by (auto simp: unique_inv_def u_def)
  have step: "unique_anomalies (xs @ [a]) =
      (case map_of u (anomaly_key a) of
         None \<Rightarrow> map_set u (anomaly_key a) a
       | Some old \<Rightarrow> if getSeverityScore a > getSeverityScore old
                     then map_set u (anomaly_key a) a else u)"
    unfolding u_def unique_anomalies_def by (simp add: unique_step_def Let_def)
  show ?case
  proof (cases "map_of u (anomaly_key a) = None
                \<or> (\<exists>old. map_of u (anomaly_key a) = Some old \<and> getSeverityScore a > getSeverityScore old)")
    case True
    then have eq: "unique_anomalies (xs @ [a]) = map_set u (anomaly_key a) a"
      by (auto simp: step)
    have d: "distinct (map fst (map_set u (anomaly_key a) a))"
      using inv(1) by (rule distinct_map_set)
    have m: "\<And>k b. (k, b) \<in> set (map_set u (anomaly_key a) a) \<Longrightarrow> k = anomaly_key b \<and> b \<in> set (xs @ [a])"
      using set_map_set_subset [of u "anomaly_key a" a] inv(2) by fastforce
    have s: "\<exists>b. map_of (map_set u (anomaly_key a) a) (anomaly_key c) = Some b
            \<and> getSeverityScore c \<le> getSeverityScore b" if "c \<in> set (xs @ [a])" for c
    proof (cases "anomaly_key c = anomaly_key a")
      case False
      then have "c \<in> set xs" using that by auto
      then show ?thesis using inv(3) [of c] False by (simp add: map_of_map_set)
    next
      case same: True
      show ?thesis
      proof (cases "c = a")
        case True
        then show ?thesis by (simp add: map_of_map_set)
      next
        case False
        then have "c \<in> set xs" using that by auto
        then obtain b where b: "map_of u (anomaly_key a) = Some b" "getSeverityScore c \<le> getSeverityScore b"
          using inv(3) [of c] same by auto
        then have "getSeverityScore a > getSeverityScore b" using True by auto
        then show ?thesis using b same by (simp add: map_of_map_set)
      qed
    qed
    show ?thesis
      unfolding unique_inv_def eq using d m s by blast
  next
    case False
    then obtain old where old: "map_of u (anomaly_key a) = Some old"
      "\<not> getSeverityScore a > getSeverityScore old"
      by auto
    then have eq: "unique_anomalies (xs @ [a]) = u"
      by (simp add: step)
    have s: "\<exists>b. map_of u (anomaly_key c) = Some b
            \<and> getSeverityScore c \<le> getSeverityScore b" if "c \<in> set (xs @ [a])" for c
    proof (cases "c = a")
      case True
      then show ?thesis using old by auto
    next
      case False
      then show ?thesis using that inv(3) [of c] by auto
    qed
    show ?thesis
      unfolding unique_inv_def eq using inv(1) inv(2) s by fastforce
  qed
qed

lemma prioritize_keys_distinct: "distinct (map anomaly_key (prioritizeAnomalies xs))"
proof -
  have inv: "unique_inv xs (unique_anomalies xs)" by (rule unique_anomalies_inv)
  have "map anomaly_key (map snd (unique_anomalies xs)) = map fst (unique_anomalies xs)"
    unfolding map_map by (rule map_cong) (use inv in \<open>auto simp: unique_inv_def\<close>)
  then have "distinct (map anomaly_key (map snd (unique_anomalies xs)))"
    using inv unfolding unique_inv_def by metis
  then show ?thesis
    by (simp add: prioritizeAnomalies_def distinct_map_sort_by)
qed

lemma prioritize_survivor:
  assumes "a \<in> set xs"
  shows "\<exists>b \<in> set (prioritizeAnomalies xs). anomaly_key b = anomaly_key a
           \<and> getSeverityScore a \<le> getSeverityScore b"
proof -
  have inv: "unique_inv xs (unique_anomalies xs)" by (rule unique_anomalies_inv)
  then obtain b where b: "map_of (unique_anomalies xs) (anomaly_key a) = Some b"
    "getSeverityScore a \<le> getSeverityScore b"
    using assms unfolding unique_inv_def by blast
  then have mem: "(anomaly_key a, b) \<in> set (unique_anomalies xs)"
    by (simp add: map_of_SomeD)
  then have "anomaly_key a = anomaly_key b"
    using inv unfolding unique_inv_def by blast
  moreover have "b \<in> set (prioritizeAnomalies xs)"
    using mem by (force simp: prioritizeAnomalies_def set_sort_by)
  ultimately show ?thesis using b(2) by auto
qed

lemma prioritize_subset: "set (prioritizeAnomalies xs) \<subseteq> set xs"
  using unique_anomalies_inv [of xs]
  by (auto simp: prioritizeAnomalies_def set_sort_by unique_inv_def)

subsection \<open>The anomaly detectors on the two-group timeline\<close>

lemma sorted_tl: "sort_by by_timestamp reordered_timeline = reordered_timeline"
  by (simp add: reordered_timeline_def tl_event_def by_timestamp_def)

lemma vbw: "calculateVolumeByWindow reordered_timeline (5 * 60 * 1000) = [(0, 3), (600000, 18)]"
  by (simp add: reordered_timeline_def tl_event_def calculateVolumeByWindow_def)

lemma sqrt_225_4: "sqrt (225 / 4) = 15 / 2"
  by (rule real_sqrt_unique) (simp_all add: power2_eq_square)

lemma stats: "calculateStatistics (map num [3, 18]) = (Fin (21 / 2), Fin (15 / 2))"
  by (simp add: calculateStatistics_def js_sum_def num_def js_sq_def js_sub_def sqrt_225_4)

lemma spikes: "detectVolumeSpikes reordered_timeline = []"
  unfolding detectVolumeSpikes_def Let_def vbw
  using stats by (simp add: zScore_of_def js_sub_def num_def js_gt_def spikeThreshold_def)


lemma groups:
  "group_by te_accountId reordered_timeline =
     [(''o'', [tl_event original 0 ''o'' 0]),
      (''c'', [tl_event (spread retweet) 0 ''c'' 1, tl_event (spread quote) 0 ''c'' 1]),
      (''a'', [tl_event (spread retweet) 660000 ''a'' 1, tl_event (spread retweet) 660000 ''a'' 1,
               tl_event (spread retweet) 660000 ''a'' 1, tl_event (spread retweet) 660000 ''a'' 1,
               tl_event (spread retweet) 660000 ''a'' 1, tl_event (spread quote) 660000 ''a'' 1,
               tl_event (spread quote) 660000 ''a'' 1, tl_event (spread quote) 660000 ''a'' 1,
               tl_event (spread quote) 660000 ''a'' 1]),
      (''b'', [tl_event (spread retweet) 660000 ''b'' 1, tl_event (spread retweet) 660000 ''b'' 1,
               tl_event (spread retweet) 660000 ''b'' 1, tl_event (spread retweet) 660000 ''b'' 1,
               tl_event (spread quote) 660000 ''b'' 1, tl_event (spread quote) 660000 ''b'' 1,
               tl_event (spread quote) 660000 ''b'' 1, tl_event (spread quote) 660000 ''b'' 1,
               tl_event (spread quote) 660000 ''b'' 1])]"
  by (simp add: reordered_timeline_def group_by_def group_push_def tl_event_def)

lemma patterns: "detectTemporalPatterns w k reordered_timeline = ([], k)"
  unfolding detectTemporalPatterns_def groups
  by (simp add: tl_event_def calculateIntervals_def by_timestamp_def calculateRegularity_def
      calculateStatistics_def js_sum_def numi_def num_def js_gt_def Let_def)

lemma behavior_groups:
  "groupByBehavior reordered_timeline =
     [(''original-0'', [tl_event original 0 ''o'' 0]),
      (''retweet-1'', [tl_event (spread retweet) 0 ''c'' 1,
      tl_event (spread retweet) 660000 ''a'' 1,
      tl_event (spread retweet) 660000 ''b'' 1,
      tl_event (spread retweet) 660000 ''a'' 1,
      tl_event (spread retweet) 660000 ''b'' 1,
      tl_event (spread retweet) 660000 ''a'' 1,
      tl_event (spread retweet) 660000 ''b'' 1,
      tl_event (spread retweet) 660000 ''a'' 1,
      tl_event (spread retweet) 660000 ''b'' 1,
      tl_event (spread retweet) 660000 ''a'' 1]),
      (''quote-1'', [tl_event (spread quote) 0 ''c'' 1,
      tl_event (spread quote) 660000 ''b'' 1,
      tl_event (spread quote) 660000 ''a'' 1,
      tl_event (spread quote) 660000 ''b'' 1,
      tl_event (spread quote) 660000 ''a'' 1,
      tl_event (spread quote) 660000 ''b'' 1,
      tl_event (spread quote) 660000 ''a'' 1,
      tl_event (spread quote) 660000 ''b'' 1,
      tl_event (spread quote) 660000 ''a'' 1,
      tl_event (spread quote) 660000 ''b'' 1])]"
  by (simp add: reordered_timeline_def groupByBehavior_def group_by_def group_push_def tl_event_def
      digit_char_def)

lemma changes_original: "detectBehaviorChanges [tl_event original 0 ''o'' 0] = []"
  by (simp add: detectBehaviorChanges_def)

lemma changes_retweet:
  "detectBehaviorChanges ([tl_event (spread retweet) 0 ''c'' 1,
      tl_event (spread retweet) 660000 ''a'' 1,
      tl_event (spread retweet) 660000 ''b'' 1,
      tl_event (spread retweet) 660000 ''a'' 1,
      tl_event (spread retweet) 660000 ''b'' 1,
      tl_event (spread retweet) 660000 ''a'' 1,
      tl_event (spread retweet) 660000 ''b'' 1,
      tl_event (spread retweet) 660000 ''a'' 1,
      tl_event (spread retweet) 660000 ''b'' 1,
      tl_event (spread retweet) 660000 ''a'' 1])
   = [\<lparr> bc_timestamp = 660000, bc_severity = high, bc_accounts = [''a'', ''b''],
        bc_metrics = \<lparr> deviation = Fin 8, baseline = Fin 1, observed = Fin 9,
                       confidence = Fin (7 / 10) \<rparr> \<rparr>]"
  by (simp add: detectBehaviorChanges_def splitIntoWindows_def tl_event_def by_timestamp_def
      compareBehavior_def num_def js_sub_def js_max2_def js_gt_def new_Set_def set_add_def)

lemma changes_quote:
  "detectBehaviorChanges ([tl_event (spread quote) 0 ''c'' 1,
      tl_event (spread quote) 660000 ''b'' 1,
      tl_event (spread quote) 660000 ''a'' 1,
      tl_event (spread quote) 660000 ''b'' 1,
      tl_event (spread quote) 660000 ''a'' 1,
      tl_event (spread quote) 660000 ''b'' 1,
      tl_event (spread quote) 660000 ''a'' 1,
      tl_event (spread quote) 660000 ''b'' 1,
      tl_event (spread quote) 660000 ''a'' 1,
      tl_event (spread quote) 660000 ''b'' 1])
   = [\<lparr> bc_timestamp = 660000, bc_severity = high, bc_accounts = [''b'', ''a''],
        bc_metrics = \<lparr> deviation = Fin 8, baseline = Fin 1, observed = Fin 9,
                       confidence = Fin (7 / 10) \<rparr> \<rparr>]"
  by (simp add: detectBehaviorChanges_def splitIntoWindows_def tl_event_def by_timestamp_def
      compareBehavior_def num_def js_sub_def js_max2_def js_gt_def new_Set_def set_add_def)

lemma behaviors:
  "detectBehaviorAnomalies reordered_timeline =
     [\<lparr> an_id = ''behavior-retweet-1-660000'', an_type = behavior, an_severity = high,
        an_timestamp = 660000, affectedAccounts = [''a'', ''b''],
        an_metrics = \<lparr> deviation = Fin 8, baseline = Fin 1, observed = Fin 9,
                       confidence = Fin (7 / 10) \<rparr> \<rparr>,
      \<lparr> an_id = ''behavior-quote-1-660000'', an_type = behavior, an_severity = high,
        an_timestamp = 660000, affectedAccounts = [''b'', ''a''],
        an_metrics = \<lparr> deviation = Fin 8, baseline = Fin 1, observed = Fin 9,
                       confidence = Fin (7 / 10) \<rparr> \<rparr>]"
  unfolding detectBehaviorAnomalies_def behavior_groups
  by (simp add: changes_retweet changes_quote changes_original dec_int_def digit_char_def
      del: One_nat_def)

lemma networks: "detectNetworkAnomalies w k reordered_timeline = ([], k)"
  by (simp add: detectNetworkAnomalies_def reordered_timeline_def tl_event_def)


lemma reordered_result:
  "fst (detectAnomalies (frozen_world 0) 0 reordered_timeline ''analysis-1'') =
     [\<lparr> an_id = ''behavior-retweet-1-660000'', an_type = behavior, an_severity = high,
        an_timestamp = 660000, affectedAccounts = [''a'', ''b''],
        an_metrics = \<lparr> deviation = Fin 8, baseline = Fin 1, observed = Fin 9,
                       confidence = Fin (7 / 10) \<rparr> \<rparr>,
      \<lparr> an_id = ''behavior-quote-1-660000'', an_type = behavior, an_severity = high,
        an_timestamp = 660000, affectedAccounts = [''b'', ''a''],
        an_metrics = \<lparr> deviation = Fin 8, baseline = Fin 1, observed = Fin 9,
                       confidence = Fin (7 / 10) \<rparr> \<rparr>]"
proof -
  have len: "\<not> length reordered_timeline < minEventsForAnalysis"
    by (simp add: reordered_timeline_def minEventsForAnalysis_def)
  show ?thesis
    unfolding detectAnomalies_def detected_anomalies_def Let_def sorted_tl spikes patterns behaviors
      networks
    using len
    by (simp add: prioritizeAnomalies_def unique_anomalies_def unique_step_def anomaly_key_def
        by_priority_def priority_score_def getSeverityScore_def num_def js_sub_def js_gt_def
        dec_int_def digit_char_def)
qed

lemma esc_sorted: "sort_by by_timestamp escalating_timeline = escalating_timeline"
  by (simp add: escalating_timeline_def tl_event_def by_timestamp_def)

lemma esc_vbw: "calculateVolumeByWindow escalating_timeline (5 * 60 * 1000) = [(0, 4), (600000, 17)]"
  by (simp add: escalating_timeline_def tl_event_def calculateVolumeByWindow_def)

lemma sqrt_169_4: "sqrt (169 / 4) = 13 / 2"
  by (rule real_sqrt_unique) (simp_all add: power2_eq_square)

lemma esc_stats: "calculateStatistics (map num [4, 17]) = (Fin (21 / 2), Fin (13 / 2))"
  by (simp add: calculateStatistics_def js_sum_def num_def js_sq_def js_sub_def sqrt_169_4)

lemma esc_spikes: "detectVolumeSpikes escalating_timeline = []"
  unfolding detectVolumeSpikes_def Let_def esc_vbw
  using esc_stats by (simp add: zScore_of_def js_sub_def num_def js_gt_def spikeThreshold_def)

lemma esc_groups:
  "group_by te_accountId escalating_timeline =
     [(''o'', [tl_event original 0 ''o'' 0]),
      (''c'', [tl_event (spread retweet) 0 ''c'' 1,
             tl_event (spread retweet) 0 ''c'' 1,
             tl_event (spread quote) 0 ''c'' 1]),
      (''a'', [tl_event (spread retweet) 660000 ''a'' 1,
             tl_event (spread retweet) 660000 ''a'' 1,
             tl_event (spread retweet) 660000 ''a'' 1,
             tl_event (spread retweet) 660000 ''a'' 1,
             tl_event (spread quote) 660000 ''a'' 1,
             tl_event (spread quote) 660000 ''a'' 1,
             tl_event (spread quote) 660000 ''a'' 1,
             tl_event (spread quote) 660000 ''a'' 1,
             tl_event (spread quote) 660000 ''a'' 1]),
      (''b'', [tl_event (spread retweet) 660000 ''b'' 1,
             tl_event (spread retweet) 660000 ''b'' 1,
             tl_event (spread retweet) 660000 ''b'' 1,
             tl_event (spread retweet) 660000 ''b'' 1,
             tl_event (spread quote) 660000 ''b'' 1,
             tl_event (spread quote) 660000 ''b'' 1,
             tl_event (spread quote) 660000 ''b'' 1,
             tl_event (spread quote) 660000 ''b'' 1])]"
  by (simp add: escalating_timeline_def group_by_def group_push_def tl_event_def)

lemma esc_patterns: "detectTemporalPatterns w k escalating_timeline = ([], k)"
  unfolding detectTemporalPatterns_def esc_groups
  by (simp add: tl_event_def calculateIntervals_def by_timestamp_def calculateRegularity_def
      calculateStatistics_def js_sum_def numi_def num_def js_gt_def Let_def)

lemma esc_behavior_groups:
  "groupByBehavior escalating_timeline =
     [(''original-0'', [tl_event original 0 ''o'' 0]),
      (''retweet-1'', [tl_event (spread retweet) 0 ''c'' 1,
         tl_event (spread retweet) 0 ''c'' 1,
         tl_event (spread retweet) 660000 ''a'' 1,
         tl_event (spread retweet) 660000 ''b'' 1,
         tl_event (spread retweet) 660000 ''a'' 1,
         tl_event (spread retweet) 660000 ''b'' 1,
         tl_event (spread retweet) 660000 ''a'' 1,
         tl_event (spread retweet) 660000 ''b'' 1,
         tl_event (spread retweet) 660000 ''a'' 1,
         tl_event (spread retweet) 660000 ''b'' 1]),
      (''quote-1'', [tl_event (spread quote) 0 ''c'' 1,
         tl_event (spread quote) 660000 ''a'' 1,
         tl_event (spread quote) 660000 ''b'' 1,
         tl_event (spread quote) 660000 ''a'' 1,
         tl_event (spread quote) 660000 ''b'' 1,
         tl_event (spread quote) 660000 ''a'' 1,
         tl_event (spread quote) 660000 ''b'' 1,
         tl_event (spread quote) 660000 ''a'' 1,
         tl_event (spread quote) 660000 ''b'' 1,
         tl_event (spread quote) 660000 ''a'' 1])]"
  by (simp add: escalating_timeline_def groupByBehavior_def group_by_def group_push_def tl_event_def
      digit_char_def)

lemma esc_changes_retweet:
  "detectBehaviorChanges [tl_event (spread retweet) 0 ''c'' 1,
       tl_event (spread retweet) 0 ''c'' 1,
       tl_event (spread retweet) 660000 ''a'' 1,
       tl_event (spread retweet) 660000 ''b'' 1,
       tl_event (spread retweet) 660000 ''a'' 1,
       tl_event (spread retweet) 660000 ''b'' 1,
       tl_event (spread retweet) 660000 ''a'' 1,
       tl_event (spread retweet) 660000 ''b'' 1,
       tl_event (spread retweet) 660000 ''a'' 1,
       tl_event (spread retweet) 660000 ''b'' 1]
   = [\<lparr> bc_timestamp = 660000, bc_severity = medium, bc_accounts = [''a'', ''b''],
        bc_metrics = \<lparr> deviation = Fin 3, baseline = Fin 2, observed = Fin 8,
                       confidence = Fin (7 / 10) \<rparr> \<rparr>]"
  by (simp add: detectBehaviorChanges_def splitIntoWindows_def tl_event_def by_timestamp_def
      compareBehavior_def num_def js_sub_def js_max2_def js_gt_def new_Set_def set_add_def)

lemma esc_changes_quote:
  "detectBehaviorChanges [tl_event (spread quote) 0 ''c'' 1,
       tl_event (spread quote) 660000 ''a'' 1,
       tl_event (spread quote) 660000 ''b'' 1,
       tl_event (spread quote) 660000 ''a'' 1,
       tl_event (spread quote) 660000 ''b'' 1,
       tl_event (spread quote) 660000 ''a'' 1,
       tl_event (spread quote) 660000 ''b'' 1,
       tl_event (spread quote) 660000 ''a'' 1,
       tl_event (spread quote) 660000 ''b'' 1,
       tl_event (spread quote) 660000 ''a'' 1]
   = [\<lparr> bc_timestamp = 660000, bc_severity = high, bc_accounts = [''a'', ''b''],
        bc_metrics = \<lparr> deviation = Fin 8, baseline = Fin 1, observed = Fin 9,
                       confidence = Fin (7 / 10) \<rparr> \<rparr>]"
  by (simp add: detectBehaviorChanges_def splitIntoWindows_def tl_event_def by_timestamp_def
      compareBehavior_def num_def js_sub_def js_max2_def js_gt_def new_Set_def set_add_def)

lemma esc_behaviors: "detectBehaviorAnomalies escalating_timeline = [medium_change, high_change]"
  unfolding detectBehaviorAnomalies_def esc_behavior_groups medium_change_def high_change_def
  by (simp add: esc_changes_retweet esc_changes_quote changes_original dec_int_def digit_char_def
      del: One_nat_def)

lemma esc_networks: "detectNetworkAnomalies w k escalating_timeline = ([], k)"
  by (simp add: detectNetworkAnomalies_def escalating_timeline_def tl_event_def)

lemma esc_detected:
  "detected_anomalies w k escalating_timeline = ([medium_change, high_change], k)"
  unfolding detected_anomalies_def Let_def esc_spikes esc_patterns esc_behaviors esc_networks
  by simp

lemma esc_keys: "anomaly_key medium_change = anomaly_key high_change"
  by (simp add: anomaly_key_def medium_change_def high_change_def)

lemma esc_result:
  "detectAnomalies w k escalating_timeline analysisId = ([high_change], k)"
proof -
  have len: "\<not> length escalating_timeline < minEventsForAnalysis"
    by (simp add: escalating_timeline_def minEventsForAnalysis_def)
  have p: "prioritizeAnomalies [medium_change, high_change] = [high_change]"
    using esc_keys
    by (simp add: prioritizeAnomalies_def unique_anomalies_def unique_step_def
        getSeverityScore_def medium_change_def high_change_def)
  show ?thesis
    unfolding detectAnomalies_def Let_def esc_sorted esc_detected
    using len by (simp add: p)
qed

subsection \<open>The merge pass and the coordination detectors\<close>

lemma set_set_add: "set (set_add s x) = insert x (set s)"
  by (auto simp: set_add_def)

lemma set_foldl_set_add: "set (foldl set_add s xs) = set s \<union> set xs"
  by (induction xs arbitrary: s) (auto simp: set_set_add)

lemma set_new_Set: "set (new_Set xs) = set xs"
  by (simp add: new_Set_def set_foldl_set_add)

lemma merge_into_none:
  assumes "\<forall>q \<in> set ps. length (filter (\<lambda>a. a \<in> set s) (accounts q)) < minGroupSize - 1"
  shows "merge_into s e ps = (s, e, [], ps)"
  using assms by (induction ps) (auto simp: Let_def)

lemma mergePatterns_from_separated:
  "separated ps \<Longrightarrow> map accounts (mergePatterns_from u ps) = map (\<lambda>p. new_Set (accounts p)) ps"
proof (induction ps arbitrary: u)
  case Nil
  show ?case by simp
next
  case (Cons p ps)
  have "merge_into (new_Set (accounts p)) (evidence p) ps = (new_Set (accounts p), evidence p, [], ps)"
    using Cons.prems by (intro merge_into_none) (simp add: set_new_Set)
  then show ?case
    using Cons by simp
qed

lemma mergePatterns_from_mixed: "p \<in> set (mergePatterns_from u ps) \<Longrightarrow> cp_type p = Mixed"
  by (induction u ps rule: mergePatterns_from.induct) (auto split: prod.splits)

lemma chained_merged:
  "map accounts (mergePatterns chained_patterns) = [[''a'', ''b'', ''c'', ''d'', ''e''], [''c'', ''d'', ''e'']]"
  by (simp add: mergePatterns_def chained_patterns_def example_pattern_def new_Set_def set_add_def
      minGroupSize_def Let_def)


lemma chained_merged_full:
  "mergePatterns chained_patterns =
     [example_pattern [''a'', ''b'', ''c'', ''d'', ''e''] \<lparr> cp_type := Mixed \<rparr>,
      example_pattern [''c'', ''d'', ''e''] \<lparr> cp_type := Mixed \<rparr>]"
  by (simp add: mergePatterns_def chained_patterns_def example_pattern_def new_Set_def set_add_def
      minGroupSize_def Let_def js_max_list_def js_max2_def)

lemma three_groups:
  "groupByTimeWindow three_retweets = [(0, three_retweets)]"
  by (simp add: groupByTimeWindow_def three_retweets_def spread_ev_def by_event_time_def
      timeWindowThreshold_def)

lemma three_temporal:
  "map accounts (detectTemporalCoordination three_retweets) = [[''a'', ''b'', ''c'']]"
  unfolding detectTemporalCoordination_def three_groups
  by (simp add: three_retweets_def spread_ev_def minGroupSize_def new_Set_def set_add_def
      createTemporalPattern_def Let_def)

lemma three_content: "detectContentCoordination three_retweets = []"
  by (simp add: detectContentCoordination_def groupBySimilarContent_def three_retweets_def
      spread_ev_def set_add_def calculateContentSimilarity_def contentSimilarityThreshold_def
      js_ge_def js_le_def minGroupSize_def)

lemma three_adjacency:
  "coord_adjacency three_retweets =
     [(''a'', [''b'', ''c'']), (''b'', [''a'', ''c'']), (''c'', [''a'', ''b''])]"
  by (simp add: coord_adjacency_def three_retweets_def spread_ev_def neighbours_of_def set_add_def
      Let_def)

lemma three_clusters:
  "map nc_accounts (findNetworkClusters three_retweets) = [[''a'', ''b'', ''c'']]"
  unfolding findNetworkClusters_def three_adjacency Let_def
  by (simp add: expandCluster_def neighbours_of_def minGroupSize_def)

lemma three_network:
  "map accounts (detectNetworkCoordination three_retweets) = [[''a'', ''b'', ''c'']]"
  using three_clusters
  by (auto simp: detectNetworkCoordination_def minGroupSize_def createNetworkPattern_def Let_def)


subsection \<open>The graph, the clusters and the scores of the network analyzer\<close>

lemma map_of_rest_None:
  "map_of rest k = None \<Longrightarrow> map_set rest k v = rest @ [(k, v)]"
  by (induction rest) (auto split: if_splits)

lemma graph_inv_addNodeAndEdge:
  assumes "graph_inv authorId st"
  shows "graph_inv authorId (addNodeAndEdge st accountId authorId ty ts wt)"
proof -
  obtain nodeMap edges where st: "st = (nodeMap, edges)" by (cases st)
  obtain src rest where inv: "nodeMap = (authorId, src) # rest"
    "nn_type src = source" "nn_accountId src = authorId" "influence src = Fin 100"
    "\<forall>(k, n) \<in> set rest. k \<noteq> authorId \<and> nn_accountId n = k \<and> nn_type n = spreader
               \<and> k \<in> ne_source ` set edges"
    "\<forall>e \<in> set edges. ne_target e = authorId"
    using assms unfolding graph_inv_def st by auto
  let ?e = "\<lparr> ne_source = accountId, ne_target = authorId, ne_type = ty,
                     weight = wt, ne_timestamp = ts \<rparr>"
  let ?n = "\<lparr> nn_id = ''node-'' @ accountId, nn_accountId = accountId, nn_type = spreader,
                influence = Fin 0, connections = [], nn_timestamp = ts \<rparr>"
  show ?thesis
  proof (cases "map_of nodeMap accountId = None")
    case True
    then have ne: "accountId \<noteq> authorId" and r: "map_of rest accountId = None"
      using inv(1) by (auto split: if_splits)
    have eq: "addNodeAndEdge st accountId authorId ty ts wt
              = ((authorId, src) # rest @ [(accountId, ?n)], edges @ [?e])"
      using True ne r by (simp add: addNodeAndEdge_def st inv(1) map_of_rest_None)
    show ?thesis
      unfolding graph_inv_def eq using inv(2-6) ne by (auto simp: image_iff)
  next
    case False
    then have eq: "addNodeAndEdge st accountId authorId ty ts wt = (nodeMap, edges @ [?e])"
      by (auto simp: addNodeAndEdge_def st)
    show ?thesis
      unfolding graph_inv_def eq using inv by (auto simp: image_iff)
  qed
qed

lemma graph_inv_foldl:
  "graph_inv authorId st \<Longrightarrow>
   graph_inv authorId (foldl (\<lambda>st x. addNodeAndEdge st (f x) authorId ty (g x) wt) st xs)"
  by (induction xs arbitrary: st) (simp_all add: graph_inv_addNodeAndEdge)

lemma set_map_set_cases:
  "(k', v') \<in> set (map_set m k v) \<Longrightarrow> (k', v') \<in> set m \<or> (k' = k \<and> v' = v)"
  by (induction m) (auto split: if_splits)

lemma graph_inv_add_connection:
  assumes "graph_inv authorId (nodeMap, edges)"
  shows "graph_inv authorId (add_connection nodeMap who other, edges)"
proof (cases "map_of nodeMap who")
  case None
  then show ?thesis using assms by (simp add: add_connection_def)
next
  case (Some n)
  obtain src rest where inv: "nodeMap = (authorId, src) # rest"
    "nn_type src = source" "nn_accountId src = authorId" "influence src = Fin 100"
    "\<forall>(k, n) \<in> set rest. k \<noteq> authorId \<and> nn_accountId n = k \<and> nn_type n = spreader
               \<and> k \<in> ne_source ` set edges"
    "\<forall>e \<in> set edges. ne_target e = authorId"
    using assms unfolding graph_inv_def by auto
  show ?thesis
  proof (cases "other \<in> set (connections n)")
    case True
    then show ?thesis using assms Some by (simp add: add_connection_def)
  next
    case False
    let ?n = "n \<lparr> connections := connections n @ [other] \<rparr>"
    have eq: "add_connection nodeMap who other = map_set nodeMap who ?n"
      using Some False by (simp add: add_connection_def)
    show ?thesis
    proof (cases "who = authorId")
      case True
      then have "n = src" using Some inv(1) by simp
      then have "map_set nodeMap who ?n = (authorId, src \<lparr> connections := connections src @ [other] \<rparr>) # rest"
        using True inv(1) by simp
      then show ?thesis
        unfolding graph_inv_def eq using inv(2-6) by auto
    next
      case ne: False
      then have m: "map_of rest who = Some n" using Some inv(1) by simp
      then have mem: "(who, n) \<in> set rest" by (rule map_of_SomeD)
      have ms: "map_set nodeMap who ?n = (authorId, src) # map_set rest who ?n"
        using ne inv(1) by simp
      have "\<forall>(k, x) \<in> set (map_set rest who ?n). k \<noteq> authorId \<and> nn_accountId x = k
               \<and> nn_type x = spreader \<and> k \<in> ne_source ` set edges"
      proof (clarify)
        fix k x assume kx: "(k, x) \<in> set (map_set rest who ?n)"
        then consider "(k, x) \<in> set rest" | "k = who" "x = ?n"
          using set_map_set_cases by fastforce
        then show "k \<noteq> authorId \<and> nn_accountId x = k \<and> nn_type x = spreader
               \<and> k \<in> ne_source ` set edges"
        proof cases
          case 1
          then show ?thesis using inv(5) by auto
        next
          case 2
          then show ?thesis using inv(5) mem by auto
        qed
      qed
      then show ?thesis
        unfolding graph_inv_def eq ms using inv(2-4,6) by auto
    qed
  qed
qed

lemma graph_inv_connections:
  "graph_inv authorId (nodeMap, edges) \<Longrightarrow>
   graph_inv authorId
     (foldl (\<lambda>m edge. add_connection (add_connection m (ne_source edge) (ne_target edge))
                                      (ne_target edge) (ne_source edge)) nodeMap es, edges)"
  by (induction es arbitrary: nodeMap) (simp_all add: graph_inv_add_connection)

lemma buildNetworkGraph_inv:
  "\<exists>nodeMap. buildNetworkGraph sd = (map snd nodeMap, snd (buildNetworkGraph sd))
     \<and> graph_inv (tw_authorId (originalTweet sd)) (nodeMap, snd (buildNetworkGraph sd))"
proof -
  let ?a = "tw_authorId (originalTweet sd)"
  let ?src = "\<lparr> nn_id = ''node-'' @ ?a, nn_accountId = ?a, nn_type = source, influence = Fin 100,
                connections = [], nn_timestamp = tw_createdAt (originalTweet sd) \<rparr>"
  let ?st0 = "(map_set [] ?a ?src, [] :: network_edge list)"
  let ?st1 = "foldl (\<lambda>st rt. addNodeAndEdge st (it_authorId rt) ?a retweet (it_createdAt rt) (Fin 1))
                      ?st0 (retweets sd)"
  let ?st2 = "foldl (\<lambda>st qt. addNodeAndEdge st (it_authorId qt) ?a quote (it_createdAt qt) (Fin 2))
                      ?st1 (quotes sd)"
  let ?st3 = "foldl (\<lambda>st rp. addNodeAndEdge st (it_authorId rp) ?a reply (it_createdAt rp) (Fin (3 / 2)))
                      ?st2 (replies sd)"
  let ?m = "foldl (\<lambda>m edge. add_connection (add_connection m (ne_source edge) (ne_target edge))
                                                     (ne_target edge) (ne_source edge))
                          (fst ?st3) (snd ?st3)"
  have b: "buildNetworkGraph sd = (map snd ?m, snd ?st3)"
    by (simp add: buildNetworkGraph_def Let_def)
  have "graph_inv ?a ?st0"
    by (simp add: graph_inv_def)
  then have "graph_inv ?a ?st1" by (rule graph_inv_foldl)
  then have "graph_inv ?a ?st2" by (rule graph_inv_foldl)
  then have "graph_inv ?a ?st3" by (rule graph_inv_foldl)
  then have "graph_inv ?a (fst ?st3, snd ?st3)" by simp
  then have "graph_inv ?a (?m, snd ?st3)" by (rule graph_inv_connections)
  then show ?thesis
    unfolding b by auto
qed

lemma findPath_self: "findPath a a edges = [a]"
  by (simp add: findPath_def)

lemma trace_leaves_author:
  "\<forall>leaf \<in> set leaves. nn_accountId leaf = a \<Longrightarrow> trace_leaves a nodes edges leaves = Inr []"
  by (induction leaves) (simp_all add: findPath_self)

lemma leaves_of_graph:
  assumes "graph_inv a (nodeMap, edges)"
  shows "\<forall>leaf \<in> set (findLeafNodes (map snd nodeMap) edges). nn_accountId leaf = a"
proof -
  obtain src rest where inv: "nodeMap = (a, src) # rest" "nn_accountId src = a"
    "\<forall>(k, n) \<in> set rest. k \<noteq> a \<and> nn_accountId n = k \<and> nn_type n = spreader
               \<and> k \<in> ne_source ` set edges"
    using assms unfolding graph_inv_def by auto
  show ?thesis
  proof
    fix leaf assume "leaf \<in> set (findLeafNodes (map snd nodeMap) edges)"
    then have l: "leaf \<in> set (map snd nodeMap)" "nn_accountId leaf \<notin> ne_source ` set edges"
      by (auto simp: findLeafNodes_def set_new_Set)
    then consider "leaf = src" | k where "(k, leaf) \<in> set rest"
      using inv(1) by auto
    then show "nn_accountId leaf = a"
    proof cases
      case 1
      then show ?thesis using inv(2) by simp
    next
      case 2
      then show ?thesis using inv(3) l(2) by auto
    qed
  qed
qed

lemma tracePropagationPaths_built:
  "tracePropagationPaths (fst (buildNetworkGraph sd)) (snd (buildNetworkGraph sd)) sd = Inr []"
proof -
  obtain nodeMap where b: "buildNetworkGraph sd = (map snd nodeMap, snd (buildNetworkGraph sd))"
    and inv: "graph_inv (tw_authorId (originalTweet sd)) (nodeMap, snd (buildNetworkGraph sd))"
    using buildNetworkGraph_inv by blast
  have f: "fst (buildNetworkGraph sd) = map snd nodeMap"
    using b by (metis fst_conv)
  have "trace_leaves (tw_authorId (originalTweet sd)) (map snd nodeMap) (snd (buildNetworkGraph sd))
          (findLeafNodes (map snd nodeMap) (snd (buildNetworkGraph sd))) = Inr []"
    by (rule trace_leaves_author) (rule leaves_of_graph [OF inv])
  then show ?thesis
    by (simp add: tracePropagationPaths_def f)
qed

lemma analyzeNetwork_returns:
  assumes "neo4j_ok st"
  shows "analyzeNetwork st w k sd aid =
           Inr (\<lparr> na_nodes = fst (buildNetworkGraph sd),
                  na_edges = snd (buildNetworkGraph sd),
                  clusters = fst (detectClusters w k (fst (buildNetworkGraph sd)) (snd (buildNetworkGraph sd))),
                  influencers = identifyInfluencers (fst (buildNetworkGraph sd)) (snd (buildNetworkGraph sd)) sd,
                  propagationPaths = [],
                  na_metrics = calculateNetworkMetrics (fst (buildNetworkGraph sd)) (snd (buildNetworkGraph sd)) \<rparr>,
                snd (detectClusters w k (fst (buildNetworkGraph sd)) (snd (buildNetworkGraph sd))))"
proof -
  obtain nodes edges where b: "buildNetworkGraph sd = (nodes, edges)"
    by (cases "buildNetworkGraph sd")
  obtain cls k' where d: "detectClusters w k nodes edges = (cls, k')"
    by (cases "detectClusters w k nodes edges")
  have t: "tracePropagationPaths nodes edges sd = Inr []"
    using tracePropagationPaths_built [of sd] by (simp add: b)
  show ?thesis
    using assms by (simp add: analyzeNetwork_def Let_def b d t)
qed

lemma sorted_insert_by:
  assumes "\<And>a b. cmp a b = (b < (a::int))" and "sorted ys"
  shows "sorted (insert_by cmp x ys)"
  using assms(2) by (induction ys) (auto simp: set_insert_by assms(1))

lemma sorted_sort_by:
  assumes "\<And>a b. cmp a b = (b < (a::int))"
  shows "sorted (sort_by cmp xs)"
  by (induction xs) (simp_all add: sorted_insert_by [OF assms])

lemma sorted_sort_by_int: "sorted (sort_by (\<lambda>a b. a - b > 0) (xs::int list))"
  by (rule sorted_sort_by) simp

lemma length_differences: "length (differences xs) = length xs - 1"
  by (induction xs rule: differences.induct) simp_all

lemma sum_differences: "xs \<noteq> [] \<Longrightarrow> sum_list (differences xs) = last xs - hd xs"
  by (induction xs rule: differences.induct) simp_all

lemma js_sum_numi: "js_sum (map numi ds) = Fin (real_of_int (sum_list ds))"
proof -
  have "foldl js_add (Fin a) (map numi ds) = Fin (a + real_of_int (sum_list ds))" for a
    by (induction ds arbitrary: a) (simp_all add: numi_def add.assoc)
  from this [of 0] show ?thesis by (simp add: js_sum_def)
qed

lemma sq_dev_fold_eq:
  "foldl (\<lambda>sum interval. js_add sum (js_sq (js_sub interval (Fin m)))) (Fin a) (map numi ds)
   = Fin (a + sum_list (map (\<lambda>d. (real_of_int d - m) * (real_of_int d - m)) ds))"
  by (induction ds arbitrary: a) (simp_all add: numi_def js_sq_def js_sub_def add.assoc)

lemma sq_dev_fold:
  "\<exists>v. foldl (\<lambda>sum interval. js_add sum (js_sq (js_sub interval (Fin m)))) (Fin 0) (map numi ds) = Fin v
       \<and> 0 \<le> v"
proof -
  have "0 \<le> sum_list (map (\<lambda>d. (real_of_int d - m) * (real_of_int d - m)) ds)"
    by (rule sum_list_nonneg) auto
  then show ?thesis
    unfolding sq_dev_fold_eq by simp
qed

lemma sorted_le_last: "sorted xs \<Longrightarrow> t \<in> set xs \<Longrightarrow> t \<le> last (xs :: int list)"
  by (induction xs) auto

lemma sorted_hd_le: "sorted xs \<Longrightarrow> t \<in> set xs \<Longrightarrow> hd (xs :: int list) \<le> t"
  by (cases xs) auto

lemma sorted_hd_last:
  assumes "sorted (xs :: int list)" and "t1 \<in> set xs" and "t2 \<in> set xs" and "t1 \<noteq> t2"
  shows "hd xs < last xs"
  using sorted_hd_le [OF assms(1,2)] sorted_hd_le [OF assms(1,3)]
    sorted_le_last [OF assms(1,2)] sorted_le_last [OF assms(1,3)] assms(4)
  by linarith

lemma calculateCoordinationScore_range:
  assumes "t1 \<in> set ts" and "t2 \<in> set ts" and "t1 \<noteq> t2"
  shows "\<exists>c. calculateCoordinationScore ts = Fin c \<and> 0 \<le> c \<and> c \<le> 1"
proof -
  let ?s = "sort_by (\<lambda>a b. a - b > 0) ts"
  let ?ds = "differences ?s"
  let ?is = "map numi ?ds"
  have len: "\<not> length ts < 2"
  proof
    assume "length ts < 2"
    then have "length ts = 0 \<or> length ts = 1" by linarith
    then show False
      using assms by (cases ts) auto
  qed
  have srt: "sorted ?s" by (rule sorted_sort_by_int)
  have mem: "t1 \<in> set ?s" "t2 \<in> set ?s" using assms by (simp_all add: set_sort_by)
  have ne: "?s \<noteq> []" using mem by auto
  have pos: "0 < sum_list ?ds"
    using sorted_hd_last [OF srt mem assms(3)] sum_differences [OF ne] by simp
  have dl: "0 < length ?is"
    using len by (simp add: length_differences length_sort_by)
  define n where "n = real (length ?is)"
  define avg where "avg = real_of_int (sum_list ?ds) / n"
  have npos: "0 < n" using dl unfolding n_def by (simp only: of_nat_0_less_iff)
  have avgpos: "0 < avg" using pos npos by (simp add: avg_def)
  have a: "js_div (js_sum ?is) (num (length ?is)) = Fin avg"
    unfolding js_sum_numi num_def avg_def n_def using npos unfolding n_def by simp
  obtain v where v: "foldl (\<lambda>sum interval. js_add sum (js_sq (js_sub interval (Fin avg)))) (Fin 0) ?is
                     = Fin v" "0 \<le> v"
    using sq_dev_fold [of avg ?ds] by blast
  have var: "js_div (Fin v) (num (length ?is)) = Fin (v / n)"
    unfolding num_def n_def using npos unfolding n_def by simp
  have vn: "0 \<le> v / n" using v(2) npos by simp
  have sd: "js_sqrt (Fin (v / n)) = Fin (sqrt (v / n))"
    using vn by simp
  have cv: "js_div (Fin (sqrt (v / n))) (Fin avg) = Fin (sqrt (v / n) / avg)"
    using avgpos by simp
  have cvpos: "0 \<le> sqrt (v / n) / avg"
    using vn avgpos by simp
  have "calculateCoordinationScore ts = js_max2 (Fin 0) (js_sub (Fin 1) (Fin (sqrt (v / n) / avg)))"
    unfolding calculateCoordinationScore_def Let_def a v(1) var sd cv using len by (rule if_not_P)
  then have "calculateCoordinationScore ts = Fin (max 0 (1 - sqrt (v / n) / avg))"
    by (simp add: js_max2_def js_sub_def max_def)
  then show ?thesis
    using cvpos by auto
qed

lemma net_calculateBurstiness_range:
  "\<exists>b. net_calculateBurstiness ts = Fin b \<and> 0 \<le> b \<and> b \<le> 1"
proof (cases "length ts < 2")
  case True
  then show ?thesis by (simp add: net_calculateBurstiness_def)
next
  case False
  let ?s = "sort_by (\<lambda>a b. a - b > 0) ts"
  show ?thesis
  proof (cases "last ?s - hd ?s = 0")
    case True
    then show ?thesis using False by (simp add: net_calculateBurstiness_def Let_def)
  next
    case nz: False
    let ?ds = "map numi (differences ?s)"
    have dl: "0 < length ?ds"
      using False by (simp add: length_differences length_sort_by)
    define e where "e = js_mul (js_div (numi (last ?s - hd ?s)) (num (length ts - 1))) (Fin (5 / 10))"
    define c where "c = length (filter (\<lambda>i. js_lt i e) ?ds)"
    have cle: "c \<le> length ?ds" by (simp add: c_def)
    have "net_calculateBurstiness ts = js_div (num c) (num (length ?ds))"
      using False nz by (simp add: net_calculateBurstiness_def Let_def e_def c_def)
    then have "net_calculateBurstiness ts = Fin (real c / real (length ?ds))"
      using dl by (simp add: num_def)
    moreover have "0 \<le> real c / real (length ?ds)" by simp
    moreover have "real c / real (length ?ds) \<le> 1"
      using cle dl by (simp add: divide_le_eq_1)
    ultimately show ?thesis by blast
  qed
qed

lemma calculateClusterCoherence_nonneg:
  "\<exists>x. calculateClusterCoherence ns es = Fin x \<and> 0 \<le> x"
proof (cases "length ns < 2")
  case True
  then show ?thesis by (simp add: calculateClusterCoherence_def)
next
  case False
  define p where "p = real (length ns * (length ns - 1))"
  have "2 * 1 \<le> length ns * (length ns - 1)"
    using False by (intro mult_le_mono) auto
  then have "0 < length ns * (length ns - 1)" by linarith
  then have ppos: "0 < p" unfolding p_def by (simp only: of_nat_0_less_iff)
  have "calculateClusterCoherence ns es = js_div (Fin (real (length es))) (js_div (Fin p) (Fin 2))"
    unfolding calculateClusterCoherence_def Let_def num_def p_def using False by (rule if_not_P)
  then have "calculateClusterCoherence ns es = Fin (real (length es) / (p / 2))"
    using ppos by simp
  moreover have "0 \<le> real (length es) / (p / 2)"
    using ppos by simp
  ultimately show ?thesis by blast
qed

lemma calculateSuspicionScore_range:
  assumes "coordinationScore ap = Fin c" "0 \<le> c" "burstiness ap = Fin b" "0 \<le> b" "0 \<le> x"
  shows "\<exists>y. calculateSuspicionScore ap (Fin x) = Fin y \<and> 0 \<le> y \<and> y \<le> 1"
proof -
  have "calculateSuspicionScore ap (Fin x) = Fin (min 1 (c * (4 / 10) + b * (3 / 10) + x * (3 / 10)))"
    using assms by (simp add: calculateSuspicionScore_def Let_def js_min2_def min_def)
  moreover have "0 \<le> c * (4 / 10) + b * (3 / 10) + x * (3 / 10)"
    using assms by simp
  ultimately show ?thesis by auto
qed

lemma expandCluster_loop_distinct:
  "distinct cluster \<Longrightarrow> set cluster \<subseteq> set visited
   \<Longrightarrow> distinct (fst (expandCluster_loop adj queue visited cluster))"
  by (induction adj queue visited cluster rule: expandCluster_loop.induct) auto

lemma expandCluster_distinct: "distinct (fst (expandCluster start adj visited))"
  by (simp add: expandCluster_def expandCluster_loop_distinct)

lemma detectClusters_step_clusters:
  assumes "\<forall>c \<in> set (fst state). \<exists>cl kk. 3 \<le> length cl \<and> distinct cl \<and> c = fst (analyzeCluster w kk cl nodes edges)"
  shows "\<forall>c \<in> set (fst (detectClusters_step w adj nodes edges state node)).
           \<exists>cl kk. 3 \<le> length cl \<and> distinct cl \<and> c = fst (analyzeCluster w kk cl nodes edges)"
proof -
  obtain cls visited k where st: "state = (cls, visited, k)" by (cases state)
  show ?thesis
  proof (cases "nn_accountId node \<notin> set visited")
    case False
    then show ?thesis using assms by (simp add: detectClusters_step_def st)
  next
    case True
    obtain cl visited' where e: "expandCluster (nn_accountId node) adj visited = (cl, visited')"
      by (cases "expandCluster (nn_accountId node) adj visited")
    show ?thesis
    proof (cases "3 \<le> length cl")
      case False
      then show ?thesis using assms True by (simp add: detectClusters_step_def st e)
    next
      case len: True
      obtain cd k' where a: "analyzeCluster w k cl nodes edges = (cd, k')"
        by (cases "analyzeCluster w k cl nodes edges")
      have step: "detectClusters_step w adj nodes edges state node = (cls @ [cd], visited', k')"
        using True len by (simp add: detectClusters_step_def st e a)
      have "distinct cl"
        using expandCluster_distinct [of "nn_accountId node" adj visited] e by simp
      then have "\<exists>cl kk. 3 \<le> length cl \<and> distinct cl \<and> cd = fst (analyzeCluster w kk cl nodes edges)"
        using len a by (metis fst_conv)
      then show ?thesis
        unfolding step using assms st by auto
    qed
  qed
qed

lemma detectClusters_fold_clusters:
  assumes "\<forall>c \<in> set (fst state). \<exists>cl kk. 3 \<le> length cl \<and> distinct cl \<and> c = fst (analyzeCluster w kk cl nodes edges)"
  shows "\<forall>c \<in> set (fst (foldl (detectClusters_step w adj nodes edges) state ns)).
           \<exists>cl kk. 3 \<le> length cl \<and> distinct cl \<and> c = fst (analyzeCluster w kk cl nodes edges)"
  using assms
proof (induction ns arbitrary: state)
  case Nil
  then show ?case by simp
next
  case (Cons n ns)
  show ?case
    unfolding foldl_Cons
    by (rule Cons.IH) (rule detectClusters_step_clusters [OF Cons.prems])
qed

lemma detectClusters_clusters:
  assumes "c \<in> set (fst (detectClusters w k nodes edges))"
  shows "\<exists>cl kk. 3 \<le> length cl \<and> distinct cl \<and> c = fst (analyzeCluster w kk cl nodes edges)"
proof -
  let ?r = "foldl (detectClusters_step w (buildAdjacencyList nodes edges) nodes edges) ([], [], k) nodes"
  have "fst (detectClusters w k nodes edges) = fst ?r"
    by (simp add: detectClusters_def Let_def split: prod.splits)
  moreover have "\<forall>c \<in> set (fst ?r). \<exists>cl kk. 3 \<le> length cl \<and> distinct cl \<and> c = fst (analyzeCluster w kk cl nodes edges)"
    by (rule detectClusters_fold_clusters) simp
  ultimately show ?thesis using assms by simp
qed

lemma calculateClusterCoherence_formula:
  assumes "2 \<le> length ns"
  shows "calculateClusterCoherence ns es
         = Fin (real (length es) / (real (length ns * (length ns - 1)) / 2))"
    and "0 < real (length ns * (length ns - 1)) / 2"
proof -
  define p where "p = real (length ns * (length ns - 1))"
  have "2 * 1 \<le> length ns * (length ns - 1)"
    using assms by (intro mult_le_mono) auto
  then have "0 < length ns * (length ns - 1)" by linarith
  then have ppos: "0 < p" unfolding p_def by (simp only: of_nat_0_less_iff)
  have nl: "\<not> length ns < 2" using assms by simp
  have pne: "p / 2 \<noteq> 0" using ppos by simp
  have d1: "js_div (Fin p) (Fin 2) = Fin (p / 2)" by simp
  have d2: "js_div (Fin a) (Fin q) = Fin (a / q)" if "q \<noteq> 0" for a q
    using that by simp
  have "calculateClusterCoherence ns es = js_div (Fin (real (length es))) (js_div (Fin p) (Fin 2))"
    unfolding calculateClusterCoherence_def Let_def num_def p_def using nl by (rule if_not_P)
  also have "\<dots> = Fin (real (length es) / (p / 2))"
    unfolding d1 by (rule d2 [OF pne])
  finally show "calculateClusterCoherence ns es
         = Fin (real (length es) / (real (length ns * (length ns - 1)) / 2))"
    unfolding p_def .
  have "0 < p / 2" using ppos by (rule half_gt_zero)
  then show "0 < real (length ns * (length ns - 1)) / 2"
    unfolding p_def .
qed

lemma analyzeCluster_bounds:
  assumes "c = fst (analyzeCluster w kk cl nodes edges)" and "3 \<le> length cl"
  shows "cl_nodes c = cl"
    and "coherence c = Fin (real (length (cluster_edges cl edges))
                            / (real (length cl * (length cl - 1)) / 2))"
    and "js_le (Fin 0) (coherence c)"
    and "js_gt (coherence c) (Fin 1)
         \<longleftrightarrow> real (length cl * (length cl - 1)) / 2 < real (length (cluster_edges cl edges))"
    and "t1 \<in> set (member_timestamps cl nodes) \<Longrightarrow> t2 \<in> set (member_timestamps cl nodes)
         \<Longrightarrow> t1 \<noteq> t2 \<Longrightarrow> \<exists>y. suspicionScore c = Fin y \<and> 0 \<le> y \<and> y \<le> 1"
proof -
  let ?ce = "cluster_edges cl edges"
  let ?ap = "calculateActivityPattern w cl nodes"
  let ?p = "real (length cl * (length cl - 1)) / 2"
  have two: "2 \<le> length cl" using assms(2) by simp
  show n: "cl_nodes c = cl"
    using assms(1) by (simp add: analyzeCluster_def Let_def)
  have coh: "coherence c = calculateClusterCoherence cl ?ce"
    using assms(1) by (simp add: analyzeCluster_def Let_def)
  have ppos: "0 < ?p"
    by (rule calculateClusterCoherence_formula(2) [OF two])
  show f: "coherence c = Fin (real (length ?ce) / ?p)"
    unfolding coh by (rule calculateClusterCoherence_formula(1) [OF two])
  have x: "0 \<le> real (length ?ce) / ?p"
    by (rule divide_nonneg_pos [OF of_nat_0_le_iff ppos])
  have le: "js_le (Fin 0) (Fin y)" if "0 \<le> y" for y
    using that by (auto simp: js_le_def)
  show "js_le (Fin 0) (coherence c)"
    unfolding f by (rule le [OF x])
  show "js_gt (coherence c) (Fin 1) \<longleftrightarrow> ?p < real (length ?ce)"
    unfolding f js_gt_def js_lt.simps using ppos by (simp only: less_divide_eq_1_pos)
  assume t: "t1 \<in> set (member_timestamps cl nodes)" "t2 \<in> set (member_timestamps cl nodes)" "t1 \<noteq> t2"
  obtain cs where cs: "calculateCoordinationScore (member_timestamps cl nodes) = Fin cs" "0 \<le> cs"
    using calculateCoordinationScore_range [OF t] by blast
  obtain b where b: "net_calculateBurstiness (member_timestamps cl nodes) = Fin b" "0 \<le> b"
    using net_calculateBurstiness_range by blast
  have "suspicionScore c = calculateSuspicionScore ?ap (calculateClusterCoherence cl ?ce)"
    using assms(1) by (simp add: analyzeCluster_def Let_def)
  then have "suspicionScore c = calculateSuspicionScore ?ap (Fin (real (length ?ce) / ?p))"
    unfolding calculateClusterCoherence_formula(1) [OF two] .
  moreover have "coordinationScore ?ap = Fin cs" "burstiness ?ap = Fin b"
    using cs(1) b(1) by (simp_all add: calculateActivityPattern_def Let_def)
  ultimately show "\<exists>y. suspicionScore c = Fin y \<and> 0 \<le> y \<and> y \<le> 1"
    using calculateSuspicionScore_range [of ?ap cs b "real (length ?ce) / ?p"] cs(2) b(2) x
    by simp
qed

lemma busy_graph: "buildNetworkGraph busy_data = (busy_nodes, busy_edges)"
  by code_simp

lemma busy_timestamps: "member_timestamps [''o'', ''a'', ''b''] busy_nodes = [0, 1000, 2000]"
  by code_simp

lemma busy_coordination: "calculateCoordinationScore [0, 1000, 2000] = Fin 1"
  by (simp add: calculateCoordinationScore_def Let_def js_sum_def numi_def num_def js_sq_def
      js_sub_def js_max2_def)

lemma busy_burstiness: "net_calculateBurstiness [0, 1000, 2000] = Fin 0"
  by code_simp

lemma busy_coherence:
  "calculateClusterCoherence [''o'', ''a'', ''b'']
     (cluster_edges [''o'', ''a'', ''b''] busy_edges) = Fin (4 / 3)"
  by code_simp

lemma busy_cluster:
  "analyzeCluster w k [''o'', ''a'', ''b''] busy_nodes busy_edges =
     (\<lparr> cl_id = ''cluster-'' @ dec_int (clock w k) @ ''-'' @ random36 w (k + 1),
        cl_nodes = [''o'', ''a'', ''b''],
        coherence = Fin (4 / 3),
        activityPattern =
          \<lparr> timeDistribution = calculateTimeDistribution w [0, 1000, 2000],
            contentSimilarity = Fin (5 / 10),
            coordinationScore = Fin 1,
            burstiness = Fin 0 \<rparr>,
        suspicionScore = Fin (8 / 10) \<rparr>, k + 2)"
  unfolding analyzeCluster_def calculateActivityPattern_def busy_timestamps Let_def
    busy_coordination busy_burstiness busy_coherence
  by (simp add: calculateSuspicionScore_def js_min2_def)

lemma detectClusters_three:
  assumes ids: "map nn_accountId nodes = [x, y, z]"
    and ex: "expandCluster x (buildAdjacencyList nodes edges) [] = ([x, y, z], [x, y, z])"
  shows "detectClusters w k nodes edges = ([fst (analyzeCluster w k [x, y, z] nodes edges)], k + 2)"
proof -
  let ?adj = "buildAdjacencyList nodes edges"
  obtain n0 n1 n2 where ns: "nodes = [n0, n1, n2]"
    "nn_accountId n0 = x" "nn_accountId n1 = y" "nn_accountId n2 = z"
    using ids by auto
  obtain cd where a: "analyzeCluster w k [x, y, z] nodes edges = (cd, k + 2)"
    by (simp add: analyzeCluster_def Let_def)
  have cd: "fst (analyzeCluster w k [x, y, z] nodes edges) = cd"
    by (simp add: a)
  have s0: "detectClusters_step w ?adj nodes edges ([], [], k) n0
            = ([fst (analyzeCluster w k [x, y, z] nodes edges)], [x, y, z], k + 2)"
    unfolding cd by (simp add: detectClusters_step_def ns(2) ex a)
  have s1: "detectClusters_step w ?adj nodes edges (cs, [x, y, z], kk) n1 = (cs, [x, y, z], kk)"
    for cs kk
    by (simp add: detectClusters_step_def ns(3))
  have s2: "detectClusters_step w ?adj nodes edges (cs, [x, y, z], kk) n2 = (cs, [x, y, z], kk)"
    for cs kk
    by (simp add: detectClusters_step_def ns(4))
  have "foldl (detectClusters_step w ?adj nodes edges) ([], [], k) [n0, n1, n2]
        = ([fst (analyzeCluster w k [x, y, z] nodes edges)], [x, y, z], k + 2)"
    by (simp only: foldl_Cons foldl_Nil s0 s1 s2)
  then have "foldl (detectClusters_step w ?adj nodes edges) ([], [], k) nodes
        = ([fst (analyzeCluster w k [x, y, z] nodes edges)], [x, y, z], k + 2)"
    using ns(1) by simp
  then show ?thesis
    unfolding detectClusters_def Let_def by simp
qed

lemma busy_ids: "map nn_accountId busy_nodes = [''o'', ''a'', ''b'']"
  by code_simp

lemma busy_expand:
  "expandCluster ''o'' (buildAdjacencyList busy_nodes busy_edges) []
   = ([''o'', ''a'', ''b''], [''o'', ''a'', ''b''])"
  by code_simp

lemma busy_cluster_edges: "length (cluster_edges [''o'', ''a'', ''b''] busy_edges) = 4"
  by code_simp

lemma busy_returned_edges:
  "map_option na_edges (returned_analysis
      (analyzeNetwork ok_stores (frozen_world 0) 0 busy_data ''analysis-1''))
   = Some busy_edges"
proof -
  have ok: "neo4j_ok ok_stores" by (simp add: ok_stores_def)
  show ?thesis
    unfolding analyzeNetwork_returns [OF ok] busy_graph fst_conv snd_conv
    by (simp add: returned_analysis_def)
qed

lemma busy_returned_clusters:
  "map_option clusters (returned_analysis
      (analyzeNetwork ok_stores (frozen_world 0) 0 busy_data ''analysis-1''))
   = Some [fst (analyzeCluster (frozen_world 0) 0 [''o'', ''a'', ''b''] busy_nodes busy_edges)]"
proof -
  have ok: "neo4j_ok ok_stores" by (simp add: ok_stores_def)
  show ?thesis
    unfolding analyzeNetwork_returns [OF ok] busy_graph fst_conv snd_conv
      detectClusters_three [OF busy_ids busy_expand]
    by (simp add: returned_analysis_def)
qed

lemma simultaneous_graph: "buildNetworkGraph simultaneous_data = (simultaneous_nodes, simultaneous_edges)"
  by code_simp

lemma simultaneous_expand:
  "expandCluster ''o'' (buildAdjacencyList simultaneous_nodes simultaneous_edges) []
   = ([''o'', ''a'', ''b''], [''o'', ''a'', ''b''])"
  by code_simp

lemma simultaneous_ids: "map nn_accountId simultaneous_nodes = [''o'', ''a'', ''b'']"
  by code_simp

lemma simultaneous_timestamps:
  "member_timestamps [''o'', ''a'', ''b''] simultaneous_nodes = [0, 0, 0]"
  by code_simp

lemma simultaneous_coordination: "calculateCoordinationScore [0, 0, 0] = NaN"
  by (simp add: calculateCoordinationScore_def Let_def js_sum_def numi_def num_def js_sq_def
      js_sub_def js_max2_def)

lemma simultaneous_suspicion:
  "suspicionScore (fst (analyzeCluster w k [''o'', ''a'', ''b''] simultaneous_nodes simultaneous_edges))
   = NaN"
  unfolding analyzeCluster_def calculateActivityPattern_def simultaneous_timestamps Let_def
    simultaneous_coordination
  by (simp add: calculateSuspicionScore_def js_min2_def)

subsection \<open>The results of two runs of the pipeline\<close>











lemma clock_free_anomaly_type [simp]: "an_type (clock_free_anomaly a) = an_type a"
  by (simp add: clock_free_anomaly_def)





































section \<open>Properties\<close>

subsection \<open>Bot classification\<close>

text \<open>
  C6. Bot classification is monotone in the probability: for probabilities
  \<open>p1 \<le> p2\<close>, the class of \<open>p1\<close> is not above the class of \<open>p2\<close> in the order
  human, uncertain, cyborg, bot, with the thresholds 0.8, 0.6 and 0.4. The comparison
  is the one of JavaScript numbers, so the statement covers the infinities, and NaN is
  below or equal to nothing.
\<close>

theorem classify_monotone:
  assumes "js_le p1 p2"
  shows "class_rank (classify p1) \<le> class_rank (classify p2)"
  using assms
  by (cases p1; cases p2) (auto simp: classify_def js_ge_def js_le_def class_rank_def)

theorem classify_monotone_witness:
  "js_le (Fin (5 / 10)) (Fin (7 / 10))
   \<and> classify (Fin (5 / 10)) = uncertain \<and> classify (Fin (7 / 10)) = cyborg
   \<and> class_rank (classify (Fin (5 / 10))) \<le> class_rank (classify (Fin (7 / 10)))"
proof -
  have h: "js_le (Fin (5 / 10)) (Fin (7 / 10))"
    by (simp add: js_le_def)
  show ?thesis
    using h classify_monotone [OF h]
    by (simp add: classify_def js_ge_def js_le_def)
qed

subsection \<open>Anomaly detection\<close>

text \<open>
  C8. For every timeline with fewer than 10 events and every analysis id,
  \<^verbatim>\<open>detectAnomalies\<close> returns the empty list: the early return is taken before any
  detector runs, the clock is not read and nothing is stored. The model has no error
  result on this path because the source has no statement there that can throw.
\<close>

theorem detectAnomalies_short:
  assumes "length timeline < 10"
  shows "detectAnomalies w k timeline analysisId = ([], k)"
  using assms by (simp add: detectAnomalies_def minEventsForAnalysis_def)

theorem detectAnomalies_short_witness:
  "length short_timeline < 10
   \<and> detectAnomalies (frozen_world 0) 0 short_timeline ''analysis-1'' = ([], 0)"
proof -
  have h: "length short_timeline < 10"
    by (simp add: short_timeline_def)
  show ?thesis
    using h detectAnomalies_short [OF h, of "frozen_world 0" 0 "''analysis-1''"] by simp
qed

text \<open>
  C10. In volume-spike detection the z-score is divided by the standard deviation of the
  window counts with no check for zero. When all 5-minute windows of a timeline hold the
  same number \<open>c\<close> of events, the standard deviation is 0, the z-score of every window
  is NaN, the comparison of \<open>|NaN|\<close> with the threshold 3 fails, and
  \<^verbatim>\<open>detectVolumeSpikes\<close> returns the empty list. This holds for a timeline of any
  length, so also for the timelines of at least 10 events that reach the detector.
\<close>

theorem detectVolumeSpikes_equal_windows:
  assumes "\<forall>v \<in> set (map snd (calculateVolumeByWindow timeline (5 * 60 * 1000))). v = c"
  shows "snd (calculateStatistics (map num (map snd (calculateVolumeByWindow timeline (5 * 60 * 1000))))) = Fin 0
    \<and> (\<forall>v \<in> set (map snd (calculateVolumeByWindow timeline (5 * 60 * 1000))).
          zScore_of (calculateStatistics (map num (map snd (calculateVolumeByWindow timeline (5 * 60 * 1000))))) v = NaN
          \<and> \<not> js_gt (js_abs NaN) spikeThreshold)
    \<and> detectVolumeSpikes timeline = []"
proof (cases "calculateVolumeByWindow timeline (5 * 60 * 1000) = []")
  case True
  then show ?thesis
    by (simp add: detectVolumeSpikes_def calculateStatistics_def js_gt_def)
next
  case False
  define vbw where "vbw = calculateVolumeByWindow timeline (5 * 60 * 1000)"
  have ne: "map snd vbw \<noteq> []" using False by (simp add: vbw_def)
  have st: "calculateStatistics (map num (map snd vbw)) = (Fin (real c), Fin 0)"
    using statistics_constant [OF _ ne, of c] assms by (simp add: vbw_def)
  have z: "zScore_of (Fin (real c), Fin 0) v = NaN" if "v \<in> set (map snd vbw)" for v
    using that assms by (auto simp: zScore_of_def js_sub_def num_def vbw_def)
  have z': "zScore_of (Fin (real c), Fin 0) v = NaN" if "(t, v) \<in> set vbw" for t v
    using that z [of v] by force
  have "detectVolumeSpikes timeline = []"
    unfolding detectVolumeSpikes_def Let_def vbw_def [symmetric] st
    by (auto simp: js_gt_def z')
  then show ?thesis
    using z st by (simp add: vbw_def js_gt_def)
qed

theorem detectVolumeSpikes_equal_windows_witness:
  "length steady_timeline = 10
   \<and> map snd (calculateVolumeByWindow steady_timeline (5 * 60 * 1000)) = [1, 1, 1, 1, 1, 1, 1, 1, 1, 1]
   \<and> snd (calculateStatistics (map num ([1, 1, 1, 1, 1, 1, 1, 1, 1, 1]))) = Fin 0
   \<and> zScore_of (calculateStatistics (map num ([1, 1, 1, 1, 1, 1, 1, 1, 1, 1]))) 1 = NaN
   \<and> detectVolumeSpikes steady_timeline = []"
proof -
  have v: "map snd (calculateVolumeByWindow steady_timeline (5 * 60 * 1000)) = [1, 1, 1, 1, 1, 1, 1, 1, 1, 1]"
    by (simp add: steady_timeline_def tl_event_def calculateVolumeByWindow_def)
  have h: "\<forall>v \<in> set (map snd (calculateVolumeByWindow steady_timeline (5 * 60 * 1000))). v = 1"
    unfolding v by simp
  show ?thesis
    using detectVolumeSpikes_equal_windows [OF h] unfolding v
    by (simp add: steady_timeline_def)
qed

text \<open>
  C4, as the code has it. The deduplication key joins the affected accounts in the order
  of the list, without sorting them. So \<^verbatim>\<open>detectAnomalies\<close> never returns two
  anomalies with the same type, the same list of affected accounts and timestamps in the
  same minute. For a timeline of at least 10 events, every anomaly that the detectors of
  \<^verbatim>\<open>detectAnomalies\<close> found has an anomaly with its key in the returned list that is
  at least as severe, and every returned anomaly is one the detectors found.
\<close>

theorem detectAnomalies_dedup:
  "(\<forall>i j. i < j \<and> j < length (fst (detectAnomalies w k timeline analysisId)) \<longrightarrow>
      \<not> same_dedup_triple (fst (detectAnomalies w k timeline analysisId) ! i)
                             (fst (detectAnomalies w k timeline analysisId) ! j))
   \<and> (minEventsForAnalysis \<le> length timeline \<longrightarrow>
        (\<forall>a \<in> set (fst (detected_anomalies w k (sort_by by_timestamp timeline))).
           \<exists>b \<in> set (fst (detectAnomalies w k timeline analysisId)).
             anomaly_key b = anomaly_key a \<and> getSeverityScore a \<le> getSeverityScore b)
        \<and> set (fst (detectAnomalies w k timeline analysisId))
            \<subseteq> set (fst (detected_anomalies w k (sort_by by_timestamp timeline))))"
proof -
  let ?out = "fst (detectAnomalies w k timeline analysisId)"
  let ?found = "fst (detected_anomalies w k (sort_by by_timestamp timeline))"
  have d: "distinct (map anomaly_key ?out)"
    by (simp add: detectAnomalies_def Let_def prioritize_keys_distinct split: prod.splits)
  have k: "same_dedup_triple a b \<Longrightarrow> anomaly_key a = anomaly_key b" for a b
    by (simp add: same_dedup_triple_def anomaly_key_def)
  have one: "\<not> same_dedup_triple (?out ! i) (?out ! j)" if "i < j" "j < length ?out" for i j
  proof
    assume "same_dedup_triple (?out ! i) (?out ! j)"
    then have "anomaly_key (?out ! i) = anomaly_key (?out ! j)"
      by (rule k)
    moreover have "map anomaly_key ?out ! i \<noteq> map anomaly_key ?out ! j"
      using d that unfolding distinct_conv_nth by simp
    ultimately show False
      using that by simp
  qed
  have out: "?out = prioritizeAnomalies ?found" if "minEventsForAnalysis \<le> length timeline"
    using that by (simp add: detectAnomalies_def Let_def split: prod.splits)
  have two: "\<exists>b \<in> set ?out. anomaly_key b = anomaly_key a \<and> getSeverityScore a \<le> getSeverityScore b"
    if "minEventsForAnalysis \<le> length timeline" "a \<in> set ?found" for a
    unfolding out [OF that(1)] using that(2) by (rule prioritize_survivor)
  have three: "set ?out \<subseteq> set ?found" if "minEventsForAnalysis \<le> length timeline"
    unfolding out [OF that] by (rule prioritize_subset)
  show ?thesis
    using one two three by blast
qed

theorem detectAnomalies_dedup_witness:
  "length (fst (detectAnomalies (frozen_world 0) 0 reordered_timeline ''analysis-1'')) = 2
   \<and> \<not> same_dedup_triple (fst (detectAnomalies (frozen_world 0) 0 reordered_timeline ''analysis-1'') ! 0)
                          (fst (detectAnomalies (frozen_world 0) 0 reordered_timeline ''analysis-1'') ! 1)
   \<and> minEventsForAnalysis \<le> length escalating_timeline
   \<and> fst (detected_anomalies (frozen_world 0) 0 (sort_by by_timestamp escalating_timeline))
       = [medium_change, high_change]
   \<and> anomaly_key medium_change = anomaly_key high_change
   \<and> getSeverityScore medium_change < getSeverityScore high_change
   \<and> fst (detectAnomalies (frozen_world 0) 0 escalating_timeline ''analysis-1'') = [high_change]"
proof -
  have len: "length (fst (detectAnomalies (frozen_world 0) 0 reordered_timeline ''analysis-1'')) = 2"
    unfolding reordered_result by simp
  have one: "\<not> same_dedup_triple (fst (detectAnomalies (frozen_world 0) 0 reordered_timeline ''analysis-1'') ! 0)
                          (fst (detectAnomalies (frozen_world 0) 0 reordered_timeline ''analysis-1'') ! 1)"
    using detectAnomalies_dedup [of "frozen_world 0" 0 reordered_timeline "''analysis-1''"] len
    by simp
  have ten: "minEventsForAnalysis \<le> length escalating_timeline"
    by (simp add: escalating_timeline_def minEventsForAnalysis_def)
  have sev: "getSeverityScore medium_change < getSeverityScore high_change"
    by (simp add: getSeverityScore_def medium_change_def high_change_def)
  show ?thesis
    using len one ten sev esc_keys by (simp add: esc_sorted esc_detected esc_result)
qed

text \<open>
  C4, as stated, fails. On a timeline of 21 events (the original post, one early and nine
  later retweets, one early and nine later quotes, the later ones by the accounts \<open>a\<close>
  and \<open>b\<close> in opposite orders) the behaviour detector reports one change of rate for
  the retweets and one for the quotes. Both have type \<open>behavior\<close>, the affected
  accounts \<open>{a, b}\<close> and a timestamp in minute 11, and both are returned, since the
  first lists the accounts as \<open>a, b\<close> and the second as \<open>b, a\<close>.
\<close>

theorem detectAnomalies_same_set_counterexample:
  "length (fst (detectAnomalies (frozen_world 0) 0 reordered_timeline ''analysis-1'')) = 2
   \<and> an_type (fst (detectAnomalies (frozen_world 0) 0 reordered_timeline ''analysis-1'') ! 0)
     = an_type (fst (detectAnomalies (frozen_world 0) 0 reordered_timeline ''analysis-1'') ! 1)
   \<and> set (affectedAccounts (fst (detectAnomalies (frozen_world 0) 0 reordered_timeline ''analysis-1'') ! 0))
     = set (affectedAccounts (fst (detectAnomalies (frozen_world 0) 0 reordered_timeline ''analysis-1'') ! 1))
   \<and> an_timestamp (fst (detectAnomalies (frozen_world 0) 0 reordered_timeline ''analysis-1'') ! 0) div 60000
     = an_timestamp (fst (detectAnomalies (frozen_world 0) 0 reordered_timeline ''analysis-1'') ! 1) div 60000"
  unfolding reordered_result by auto

subsection \<open>Coordination detection\<close>

text \<open>
  C9. Every pattern returned by \<^verbatim>\<open>detectCoordination\<close> has the type \<open>mixed\<close>:
  \<^verbatim>\<open>mergePatterns\<close> writes the type \<open>mixed\<close> into every pattern it returns, whether
  or not another pattern was merged into it, so the types \<open>temporal\<close>, \<open>content\<close> and
  \<open>network\<close> of the detectors never reach the result. This holds for every list of
  events, the empty one included.
\<close>

theorem detectCoordination_all_mixed:
  "\<forall>p \<in> set (detectCoordination activities analysisId). cp_type p = Mixed"
  by (auto simp: detectCoordination_def mergePatterns_def dest: mergePatterns_from_mixed)

theorem detectCoordination_all_mixed_witness:
  "map accounts (detectCoordination three_retweets ''analysis-1'') = [[''a'', ''b'', ''c'']]
   \<and> map cp_type (detectCoordination three_retweets ''analysis-1'') = [Mixed]"
proof -
  obtain t where t: "detectTemporalCoordination three_retweets = [t]" "accounts t = [''a'', ''b'', ''c'']"
    using three_temporal by auto
  obtain n where n: "detectNetworkCoordination three_retweets = [n]" "accounts n = [''a'', ''b'', ''c'']"
    using three_network by auto
  have acc: "map accounts (detectCoordination three_retweets ''analysis-1'') = [[''a'', ''b'', ''c'']]"
    by (simp add: detectCoordination_def t n three_content mergePatterns_def new_Set_def
        set_add_def minGroupSize_def Let_def)
  then obtain p where p: "detectCoordination three_retweets ''analysis-1'' = [p]"
    by auto
  then have "cp_type p = Mixed"
    using detectCoordination_all_mixed [of three_retweets "''analysis-1''"] by simp
  then show ?thesis
    using acc p by simp
qed

text \<open>
  C5, as the code has it. The merge pass is one greedy pass: a pattern that shared fewer
  than 2 accounts with the base when it was examined is not examined again after the
  account set of the base has grown. When no pattern of a merged list shares 2 or more
  accounts with an earlier one, merging the list again returns the same account sets in
  the same order.
\<close>

theorem mergePatterns_idempotent_separated:
  assumes "separated (mergePatterns ps)"
  shows "map (\<lambda>p. set (accounts p)) (mergePatterns (mergePatterns ps))
       = map (\<lambda>p. set (accounts p)) (mergePatterns ps)"
proof -
  have "map accounts (mergePatterns (mergePatterns ps))
      = map (\<lambda>p. new_Set (accounts p)) (mergePatterns ps)"
    using assms unfolding mergePatterns_def [of "mergePatterns ps"]
    by (rule mergePatterns_from_separated)
  then have "map set (map accounts (mergePatterns (mergePatterns ps)))
      = map set (map (\<lambda>p. new_Set (accounts p)) (mergePatterns ps))"
    by simp
  then show ?thesis
    by (simp add: set_new_Set comp_def)
qed

theorem mergePatterns_idempotent_separated_witness:
  "separated (mergePatterns apart_patterns)
   \<and> map accounts (mergePatterns apart_patterns) = [[''a'', ''b'', ''c''], [''c'', ''d'', ''e'']]
   \<and> map (\<lambda>p. set (accounts p)) (mergePatterns (mergePatterns apart_patterns))
     = [{''a'', ''b'', ''c''}, {''c'', ''d'', ''e''}]"
proof -
  have m: "mergePatterns apart_patterns =
     [example_pattern [''a'', ''b'', ''c''] \<lparr> cp_type := Mixed \<rparr>,
      example_pattern [''c'', ''d'', ''e''] \<lparr> cp_type := Mixed \<rparr>]"
    by (simp add: mergePatterns_def apart_patterns_def example_pattern_def new_Set_def set_add_def
      minGroupSize_def Let_def js_max_list_def js_max2_def)
  have h: "separated (mergePatterns apart_patterns)"
    unfolding m by (simp add: example_pattern_def minGroupSize_def)
  show ?thesis
    using h mergePatterns_idempotent_separated [OF h] unfolding m
    by (simp add: example_pattern_def)
qed

text \<open>
  C5, as stated, fails. For the patterns over \<open>{a, b, c}\<close>, \<open>{c, d, e}\<close> and
  \<open>{a, b, d, e}\<close> the first pass merges the third into the first and leaves the second,
  which shared one account with the first when it was examined. The result has the account
  sets \<open>{a, b, c, d, e}\<close> and \<open>{c, d, e}\<close>; merging it again, alone or appended to
  itself, gives the single account set \<open>{a, b, c, d, e}\<close>.
\<close>

theorem mergePatterns_idempotent_counterexample:
  "map accounts (mergePatterns chained_patterns)
     = [[''a'', ''b'', ''c'', ''d'', ''e''], [''c'', ''d'', ''e'']]
   \<and> map accounts (mergePatterns (mergePatterns chained_patterns))
     = [[''a'', ''b'', ''c'', ''d'', ''e'']]
   \<and> map accounts (mergePatterns (mergePatterns chained_patterns @ mergePatterns chained_patterns))
     = [[''a'', ''b'', ''c'', ''d'', ''e'']]"
  unfolding chained_merged_full
  by (simp add: mergePatterns_def example_pattern_def new_Set_def set_add_def
      minGroupSize_def Let_def js_max_list_def js_max2_def)


subsection \<open>Network analysis\<close>

text \<open>
  C2. When the call to the graph store succeeds, \<^verbatim>\<open>analyzeNetwork\<close> returns, and the
  graph it returns has exactly one node with role \<open>source\<close>: the node of the author of
  the original post, with influence 100. Every edge of the returned edge list has the
  author's account id as its target. The author's node is the only source node also when
  the author appears among the retweets, quotes or replies: \<^verbatim>\<open>addNodeAndEdge\<close> adds a
  node only for an account that has none, so the exception of the claim is never needed.
\<close>

theorem buildNetworkGraph_one_source:
  assumes "neo4j_ok st"
  shows "\<exists>r k' src. analyzeNetwork st w k spreadData analysisId = Inr (r, k')
           \<and> filter (\<lambda>n. nn_type n = source) (na_nodes r) = [src]
           \<and> nn_accountId src = tw_authorId (originalTweet spreadData)
           \<and> influence src = Fin 100
           \<and> (\<forall>e \<in> set (na_edges r). ne_target e = tw_authorId (originalTweet spreadData))"
proof -
  let ?a = "tw_authorId (originalTweet spreadData)"
  obtain nodeMap where b: "buildNetworkGraph spreadData = (map snd nodeMap, snd (buildNetworkGraph spreadData))"
    and inv: "graph_inv ?a (nodeMap, snd (buildNetworkGraph spreadData))"
    using buildNetworkGraph_inv by blast
  obtain src rest where g: "nodeMap = (?a, src) # rest" "nn_type src = source"
    "nn_accountId src = ?a" "influence src = Fin 100"
    "\<forall>(k, n) \<in> set rest. k \<noteq> ?a \<and> nn_accountId n = k \<and> nn_type n = spreader
               \<and> k \<in> ne_source ` set (snd (buildNetworkGraph spreadData))"
    "\<forall>e \<in> set (snd (buildNetworkGraph spreadData)). ne_target e = ?a"
    using inv unfolding graph_inv_def by auto
  have "filter (\<lambda>n. nn_type n = source) (map snd rest) = []"
    using g(5) by (auto simp: filter_empty_conv)
  moreover have "fst (buildNetworkGraph spreadData) = src # map snd rest"
    using b g(1) by (metis fst_conv list.simps(9) snd_conv)
  ultimately have f: "filter (\<lambda>n. nn_type n = source) (fst (buildNetworkGraph spreadData)) = [src]"
    using g(2) by simp
  show ?thesis
    using analyzeNetwork_returns [OF assms, of w k spreadData analysisId] f g(3,4,6) by simp
qed

theorem buildNetworkGraph_one_source_witness:
  "neo4j_ok ok_stores
   \<and> map_option na_nodes (returned_analysis
        (analyzeNetwork ok_stores (frozen_world 0) 0 busy_data ''analysis-1'')) = Some busy_nodes
   \<and> map nn_type busy_nodes = [source, spreader, spreader]
   \<and> map_option na_edges (returned_analysis
        (analyzeNetwork ok_stores (frozen_world 0) 0 busy_data ''analysis-1'')) = Some busy_edges
   \<and> map ne_target busy_edges = [''o'', ''o'', ''o'', ''o'']"
proof -
  have ok: "neo4j_ok ok_stores" by (simp add: ok_stores_def)
  have t: "map nn_type busy_nodes = [source, spreader, spreader]"
    by (simp add: busy_nodes_def)
  have e: "map ne_target busy_edges = [''o'', ''o'', ''o'', ''o'']"
    by (simp add: busy_edges_def)
  have r: "map_option na_nodes (returned_analysis
        (analyzeNetwork ok_stores (frozen_world 0) 0 busy_data ''analysis-1'')) = Some busy_nodes"
    "map_option na_edges (returned_analysis
        (analyzeNetwork ok_stores (frozen_world 0) 0 busy_data ''analysis-1'')) = Some busy_edges"
    unfolding analyzeNetwork_returns [OF ok] busy_graph fst_conv snd_conv
    by (simp_all add: returned_analysis_def)
  show ?thesis
    using ok t e r
      buildNetworkGraph_one_source [OF ok, of "frozen_world 0" 0 busy_data "''analysis-1''"]
    by simp
qed

text \<open>
  C7. For a dataset whose retweets, quotes and replies are all empty, and a graph store
  that takes the graph, \<^verbatim>\<open>analyzeNetwork\<close> returns one node (the source), no edge, no
  cluster, one influencer (the source as originator, with the score 50, which is above the
  threshold 10) and no propagation path. With no edge \<^verbatim>\<open>Math.min()\<close> is \<open>Infinity\<close>
  and \<^verbatim>\<open>Math.max()\<close> is \<open>-Infinity\<close>, the time range is \<open>-Infinity\<close> and the
  temporal factor is 0. No clock is read.
\<close>

theorem analyzeNetwork_no_interactions:
  assumes "retweets spreadData = []" and "quotes spreadData = []" and "replies spreadData = []"
    and "neo4j_ok st"
  shows "analyzeNetwork st w k spreadData analysisId =
     Inr (\<lparr> na_nodes = [\<lparr> nn_id = ''node-'' @ tw_authorId (originalTweet spreadData),
                           nn_accountId = tw_authorId (originalTweet spreadData),
                           nn_type = source,
                           influence = Fin 100,
                           connections = [],
                           nn_timestamp = tw_createdAt (originalTweet spreadData) \<rparr>],
            na_edges = [],
            clusters = [],
            influencers = [\<lparr> in_accountId = tw_authorId (originalTweet spreadData),
                              influenceScore = Fin 50,
                              reachMetrics = \<lparr> directReach = 0, indirectReach = 0, cascadeDepth = 0 \<rparr>,
                              in_role = originator \<rparr>],
            propagationPaths = [],
            na_metrics = \<lparr> totalNodes = 1, totalEdges = 0, nm_density = Fin 0,
                            averageDegree = Fin 0, clusteringCoefficient = Fin 0,
                            modularity = Fin (5 / 10) \<rparr> \<rparr>, k)"
proof -
  let ?a = "tw_authorId (originalTweet spreadData)"
  let ?src = "\<lparr> nn_id = ''node-'' @ ?a, nn_accountId = ?a, nn_type = source, influence = Fin 100,
                connections = [], nn_timestamp = tw_createdAt (originalTweet spreadData) \<rparr>"
  have b: "buildNetworkGraph spreadData = ([?src], [])"
    using assms(1-3) by (simp add: buildNetworkGraph_def Let_def)
  have adj: "buildAdjacencyList [?src] [] = [(?a, [])]"
    by (simp add: buildAdjacencyList_def)
  have c: "detectClusters w k [?src] [] = ([], k)"
    unfolding detectClusters_def adj Let_def
    by (simp add: detectClusters_step_def expandCluster_def neighbours_of_def)
  have r: "calculateReach [?src] [] = [(?a, \<lparr> directReach = 0, indirectReach = 0, cascadeDepth = 0 \<rparr>)]"
    unfolding calculateReach_def adj Let_def
    by (simp add: bfsReach_def neighbours_of_def)
  have s: "calculateInfluenceScore n 0 \<lparr> directReach = 0, indirectReach = 0, cascadeDepth = 0 \<rparr> []
           = Fin 50" if "nn_type n = source" for n
    using that
    by (simp add: calculateInfluenceScore_def Let_def num_def js_min2_def js_min_list_def
        js_max_list_def js_sub_def js_gt_def)
  have i: "identifyInfluencers [?src] [] spreadData =
             [\<lparr> in_accountId = ?a, influenceScore = Fin 50,
                reachMetrics = \<lparr> directReach = 0, indirectReach = 0, cascadeDepth = 0 \<rparr>,
                in_role = originator \<rparr>]"
    unfolding identifyInfluencers_def r Let_def
    by (simp add: calculateDegrees_def s js_gt_def determineInfluencerRole_def)
  have m: "calculateNetworkMetrics [?src] [] =
             \<lparr> totalNodes = 1, totalEdges = 0, nm_density = Fin 0, averageDegree = Fin 0,
               clusteringCoefficient = Fin 0, modularity = Fin (5 / 10) \<rparr>"
    unfolding calculateNetworkMetrics_def calculateClusteringCoefficient_def adj Let_def
    by (simp add: calculateDegrees_def calculateDensity_def calculateModularity_def
        neighbours_of_def num_def)
  show ?thesis
    unfolding analyzeNetwork_returns [OF assms(4)] b fst_conv snd_conv c i m
    by simp
qed

theorem analyzeNetwork_no_interactions_witness:
  "retweets lonely_data = [] \<and> quotes lonely_data = [] \<and> replies lonely_data = []
   \<and> neo4j_ok ok_stores
   \<and> map_option (map in_accountId) (map_option influencers (returned_analysis
        (analyzeNetwork ok_stores (frozen_world 0) 0 lonely_data ''analysis-1''))) = Some [''o'']
   \<and> map_option (map nn_accountId) (map_option na_nodes (returned_analysis
        (analyzeNetwork ok_stores (frozen_world 0) 0 lonely_data ''analysis-1''))) = Some [''o'']"
proof -
  have h: "retweets lonely_data = []" "quotes lonely_data = []" "replies lonely_data = []"
    "neo4j_ok ok_stores"
    by (simp_all add: lonely_data_def ok_stores_def)
  show ?thesis
    unfolding analyzeNetwork_no_interactions [OF h]
    using h by (simp add: returned_analysis_def lonely_data_def post_def)
qed

text \<open>
  C1, as the code has it. When the call to the graph store succeeds, \<^verbatim>\<open>analyzeNetwork\<close>
  returns, and every cluster it returns has at least 3 members, no account twice among
  them. Its coherence is the number of edges of the graph between members of the cluster
  divided by \<open>n (n - 1) / 2\<close> for \<open>n\<close> members: a number not below 0, and above 1
  exactly when there are more such edges than \<open>n (n - 1) / 2\<close> (every retweet, quote
  and reply is an edge of its own). When the timestamps of the members of the cluster
  are not all the same, its suspicion score is a number between 0 and 1.
\<close>

theorem analyzeNetwork_clusters:
  assumes "neo4j_ok st"
  shows "\<exists>r k'. analyzeNetwork st w k spreadData analysisId = Inr (r, k')
     \<and> (\<forall>c \<in> set (clusters r).
           distinct (cl_nodes c)
           \<and> 3 \<le> length (cl_nodes c)
           \<and> coherence c = Fin (real (length (cluster_edges (cl_nodes c) (na_edges r)))
                                 / (real (length (cl_nodes c) * (length (cl_nodes c) - 1)) / 2))
           \<and> js_le (Fin 0) (coherence c)
           \<and> (js_gt (coherence c) (Fin 1)
                \<longleftrightarrow> real (length (cl_nodes c) * (length (cl_nodes c) - 1)) / 2
                      < real (length (cluster_edges (cl_nodes c) (na_edges r))))
           \<and> ((\<exists>t1 \<in> set (member_timestamps (cl_nodes c) (na_nodes r)).
                \<exists>t2 \<in> set (member_timestamps (cl_nodes c) (na_nodes r)). t1 \<noteq> t2)
                \<longrightarrow> (\<exists>y. suspicionScore c = Fin y \<and> 0 \<le> y \<and> y \<le> 1)))"
proof -
  let ?nodes = "fst (buildNetworkGraph spreadData)"
  let ?edges = "snd (buildNetworkGraph spreadData)"
  define r where "r = \<lparr> na_nodes = ?nodes, na_edges = ?edges,
      clusters = fst (detectClusters w k ?nodes ?edges),
      influencers = identifyInfluencers ?nodes ?edges spreadData,
      propagationPaths = [],
      na_metrics = calculateNetworkMetrics ?nodes ?edges \<rparr>"
  have sel: "na_nodes r = ?nodes" "na_edges r = ?edges"
    "clusters r = fst (detectClusters w k ?nodes ?edges)"
    by (simp_all add: r_def)
  have ret: "analyzeNetwork st w k spreadData analysisId
             = Inr (r, snd (detectClusters w k ?nodes ?edges))"
    unfolding r_def by (rule analyzeNetwork_returns [OF assms])
  have main: "\<forall>c \<in> set (clusters r).
           distinct (cl_nodes c)
           \<and> 3 \<le> length (cl_nodes c)
           \<and> coherence c = Fin (real (length (cluster_edges (cl_nodes c) (na_edges r)))
                                 / (real (length (cl_nodes c) * (length (cl_nodes c) - 1)) / 2))
           \<and> js_le (Fin 0) (coherence c)
           \<and> (js_gt (coherence c) (Fin 1)
                \<longleftrightarrow> real (length (cl_nodes c) * (length (cl_nodes c) - 1)) / 2
                      < real (length (cluster_edges (cl_nodes c) (na_edges r))))
           \<and> ((\<exists>t1 \<in> set (member_timestamps (cl_nodes c) (na_nodes r)).
                \<exists>t2 \<in> set (member_timestamps (cl_nodes c) (na_nodes r)). t1 \<noteq> t2)
                \<longrightarrow> (\<exists>y. suspicionScore c = Fin y \<and> 0 \<le> y \<and> y \<le> 1))"
  proof (rule ballI)
    fix c
    assume "c \<in> set (clusters r)"
    then have mem: "c \<in> set (fst (detectClusters w k ?nodes ?edges))"
      unfolding sel .
    obtain cl kk where cl: "3 \<le> length cl" "distinct cl"
      "c = fst (analyzeCluster w kk cl ?nodes ?edges)"
      using detectClusters_clusters [OF mem] by blast
    note b = analyzeCluster_bounds [OF cl(3) cl(1)]
    show "distinct (cl_nodes c)
           \<and> 3 \<le> length (cl_nodes c)
           \<and> coherence c = Fin (real (length (cluster_edges (cl_nodes c) (na_edges r)))
                                 / (real (length (cl_nodes c) * (length (cl_nodes c) - 1)) / 2))
           \<and> js_le (Fin 0) (coherence c)
           \<and> (js_gt (coherence c) (Fin 1)
                \<longleftrightarrow> real (length (cl_nodes c) * (length (cl_nodes c) - 1)) / 2
                      < real (length (cluster_edges (cl_nodes c) (na_edges r))))
           \<and> ((\<exists>t1 \<in> set (member_timestamps (cl_nodes c) (na_nodes r)).
                \<exists>t2 \<in> set (member_timestamps (cl_nodes c) (na_nodes r)). t1 \<noteq> t2)
                \<longrightarrow> (\<exists>y. suspicionScore c = Fin y \<and> 0 \<le> y \<and> y \<le> 1))"
      unfolding sel b(1) using cl(1,2) b(2,3,4) b(5) by blast
  qed
  show ?thesis
    using ret main by blast
qed

theorem analyzeNetwork_clusters_witness:
  "neo4j_ok ok_stores
   \<and> map_option (map cl_nodes) (map_option clusters (returned_analysis
        (analyzeNetwork ok_stores (frozen_world 0) 0 busy_data ''analysis-1'')))
     = Some [[''o'', ''a'', ''b'']]
   \<and> map_option na_edges (returned_analysis
        (analyzeNetwork ok_stores (frozen_world 0) 0 busy_data ''analysis-1''))
     = Some busy_edges
   \<and> length (cluster_edges [''o'', ''a'', ''b''] busy_edges) = 4
   \<and> map_option (map coherence) (map_option clusters (returned_analysis
        (analyzeNetwork ok_stores (frozen_world 0) 0 busy_data ''analysis-1'')))
     = Some [Fin (4 / (real (3 * (3 - 1)) / 2))]
   \<and> member_timestamps [''o'', ''a'', ''b''] busy_nodes = [0, 1000, 2000]
   \<and> map_option (map suspicionScore) (map_option clusters (returned_analysis
        (analyzeNetwork ok_stores (frozen_world 0) 0 busy_data ''analysis-1'')))
     = Some [Fin (8 / 10)]"
proof -
  have ok: "neo4j_ok ok_stores" by (simp add: ok_stores_def)
  show ?thesis
    using ok analyzeNetwork_clusters [OF ok, of "frozen_world 0" 0 busy_data "''analysis-1''"]
    unfolding busy_returned_clusters busy_returned_edges busy_cluster busy_timestamps
      busy_cluster_edges
    by simp
qed

text \<open>
  C1, as stated, fails. For an original post by \<open>o\<close> that \<open>a\<close> and \<open>b\<close> both
  retweeted and quoted, the cluster of the three accounts has 4 edges and
  \<open>3 * 2 / 2 = 3\<close> possible edges: its coherence is \<open>4 / 3\<close>.
\<close>

theorem analyzeNetwork_coherence_counterexample:
  "map_option (map coherence) (map_option clusters (returned_analysis
      (analyzeNetwork ok_stores (frozen_world 0) 0 busy_data ''analysis-1'')))
   = Some [Fin (4 / 3)]
   \<and> \<not> js_le (Fin (4 / 3)) (Fin 1)"
  unfolding busy_returned_clusters busy_cluster
  by (simp add: js_le_def)

text \<open>
  When the members of a cluster all have the same timestamp, the intervals and their
  average are 0, the coefficient of variation in \<^verbatim>\<open>calculateCoordinationScore\<close> is
  \<open>0 / 0\<close>, and the suspicion score of the cluster is NaN.
  \<^verbatim>\<open>calculateBurstiness\<close> next to it returns 1 for a time range of 0 before it
  divides.
\<close>

theorem analyzeNetwork_simultaneous_suspicion:
  "map_option (map suspicionScore) (map_option clusters (returned_analysis
      (analyzeNetwork ok_stores (frozen_world 0) 0 simultaneous_data ''analysis-1'')))
   = Some [NaN]"
proof -
  have ok: "neo4j_ok ok_stores" by (simp add: ok_stores_def)
  show ?thesis
    unfolding analyzeNetwork_returns [OF ok] simultaneous_graph fst_conv snd_conv
      detectClusters_three [OF simultaneous_ids simultaneous_expand]
    by (simp add: returned_analysis_def simultaneous_suspicion)
qed

subsection \<open>The full analysis\<close>




end
